theory Spec2Isabelle
  imports Complex_Main
begin

section \<open>Text, character classes and the string helpers of Python\<close>

text \<open>
  A Python \<^verbatim>\<open>str\<close> is modelled as a \<^typ>\<open>string\<close>, one \<^typ>\<open>char\<close> per code point, so the
  model covers the code points below 256. On that range \<^verbatim>\<open>\d\<close> is exactly the ten ASCII
  digits, and \<^verbatim>\<open>\s\<close> and \<^verbatim>\<open>str.strip()\<close> use the same twelve white-space characters
  (\<^verbatim>\<open>str.isspace\<close>): TAB, LF, VT, FF, CR, FS, GS, RS, US, SPACE, NEL and NBSP.
  The float results of the decoder are modelled as exact rationals.
\<close>

definition is_space :: "char \<Rightarrow> bool" where
  "is_space c \<longleftrightarrow> c \<in> set [CHR 0x09, CHR 0x0A, CHR 0x0B, CHR 0x0C, CHR 0x0D,
     CHR 0x1C, CHR 0x1D, CHR 0x1E, CHR 0x1F, CHR 0x20, CHR 0x85, CHR 0xA0]"

definition is_digit :: "char \<Rightarrow> bool" where
  "is_digit c \<longleftrightarrow> c \<in> set ''0123456789''"

text \<open>The class \<^verbatim>\<open>[A-Z0-9-]\<close> of the address fields and \<^verbatim>\<open>[A-Z0-9-*]\<close> of a path element.\<close>

definition is_addr_char :: "char \<Rightarrow> bool" where
  "is_addr_char c \<longleftrightarrow> c \<in> set ''ABCDEFGHIJKLMNOPQRSTUVWXYZ0123456789-''"

definition is_path_char :: "char \<Rightarrow> bool" where
  "is_path_char c \<longleftrightarrow> c \<in> set ''ABCDEFGHIJKLMNOPQRSTUVWXYZ0123456789-*''"

text \<open>\<^verbatim>\<open>s.strip()\<close>: white space removed at both ends.\<close>

definition strip :: "string \<Rightarrow> string" where
  "strip s = rev (dropWhile is_space (rev (dropWhile is_space s)))"

text \<open>\<^verbatim>\<open>s.startswith(c)\<close> for a one-character \<^verbatim>\<open>c\<close>.\<close>

definition startswith :: "string \<Rightarrow> char \<Rightarrow> bool" where
  "startswith s c = (case s of [] \<Rightarrow> False | x # _ \<Rightarrow> x = c)"

text \<open>\<^verbatim>\<open>s.split(sep)\<close> for a one-character separator: the empty text gives one empty piece.\<close>

fun split_acc :: "char \<Rightarrow> string \<Rightarrow> string \<Rightarrow> string list" where
  "split_acc sep acc [] = [rev acc]"
| "split_acc sep acc (x # xs) =
     (if x = sep then rev acc # split_acc sep [] xs else split_acc sep (x # acc) xs)"

definition split_on :: "char \<Rightarrow> string \<Rightarrow> string list" where
  "split_on sep s = split_acc sep [] s"

section \<open>Conversions \<^verbatim>\<open>int()\<close> and \<^verbatim>\<open>float()\<close>\<close>

datatype py_error = TypeError | ValueError | AttributeError

definition digit_val :: "char \<Rightarrow> nat" where
  "digit_val c = of_char c - 48"

definition digits_val :: "string \<Rightarrow> nat" where
  "digits_val s = foldl (\<lambda>a c. 10 * a + digit_val c) 0 s"

text \<open>
  \<^verbatim>\<open>int(g)\<close> and \<^verbatim>\<open>float(g)\<close> where \<^verbatim>\<open>g\<close> is what \<^verbatim>\<open>match.group(n)\<close> returned:
  \<^verbatim>\<open>None\<close> (a group that took no part in the match) raises TypeError, a run of decimal
  digits (for \<^verbatim>\<open>float\<close>: digits, a point, digits) is its decimal value. These are the only
  forms the patterns below hand over; every other text is a ValueError here. The value
  of \<^verbatim>\<open>float\<close> is the decimal number itself, not the double nearest to it.
\<close>

definition py_int :: "string option \<Rightarrow> py_error + int" where
  "py_int g =
     (case g of
        None \<Rightarrow> Inl TypeError
      | Some s \<Rightarrow> if s \<noteq> [] \<and> list_all is_digit s then Inr (int (digits_val s)) else Inl ValueError)"

definition py_float :: "string option \<Rightarrow> py_error + rat" where
  "py_float g =
     (case g of
        None \<Rightarrow> Inl TypeError
      | Some s \<Rightarrow>
          (let ip = takeWhile is_digit s; r = dropWhile is_digit s in
           case r of
             [] \<Rightarrow> Inl ValueError
           | p # fp \<Rightarrow>
               if p = CHR ''.'' \<and> ip \<noteq> [] \<and> fp \<noteq> [] \<and> list_all is_digit fp
               then Inr (of_nat (digits_val ip) + of_nat (digits_val fp) / 10 ^ length fp)
               else Inl ValueError))"

section \<open>Regular expressions: a backtracking matcher\<close>

text \<open>
  The constructs the three patterns of the decoder use: one character of a class, the
  empty pattern, concatenation, the greedy star and a numbered capture group.
\<close>

datatype regex =
    Atom "char \<Rightarrow> bool"
  | Eps
  | Cat regex regex
  | Star regex
  | Group nat regex

type_synonym captures = "(nat \<times> string) list"

text \<open>A matcher state: the text still to be read and the groups captured so far.\<close>

type_synonym mstate = "string \<times> captures"

text \<open>
  \<open>rmatch r st\<close> lists every way \<open>r\<close> matches a prefix of the text of \<open>st\<close>, in the order
  a backtracking engine tries them: the star takes one more iteration before it tries to
  stop (greedy), and later alternatives are what backtracking would reach. An iteration
  of a star must consume text.
\<close>

function rmatch :: "regex \<Rightarrow> mstate \<Rightarrow> mstate list" where
  "rmatch (Atom P) st =
     (case fst st of [] \<Rightarrow> [] | x # xs \<Rightarrow> if P x then [(xs, snd st)] else [])"
| "rmatch Eps st = [st]"
| "rmatch (Cat r1 r2) st = concat (map (rmatch r2) (rmatch r1 st))"
| "rmatch (Star r) st =
     concat (map (rmatch (Star r))
       (filter (\<lambda>st'. length (fst st') < length (fst st)) (rmatch r st))) @ [st]"
| "rmatch (Group n r) st =
     map (\<lambda>st'. (fst st', (n, take (length (fst st) - length (fst st')) (fst st)) # snd st'))
       (rmatch r st)"
  by pat_completeness auto
termination
  by (relation "measures [\<lambda>(r, st). size r, \<lambda>(r, st). length (fst st)]") auto

text \<open>
  \<^verbatim>\<open>re.search(r, s)\<close>: the first start position, from the left, at which \<open>r\<close> matches, with
  the first match there. The result is the text after the match and the captured groups.
\<close>

fun rsearch :: "regex \<Rightarrow> string \<Rightarrow> mstate option" where
  "rsearch r s =
     (case rmatch r (s, []) of
        st # _ \<Rightarrow> Some st
      | [] \<Rightarrow> (case s of [] \<Rightarrow> None | _ # xs \<Rightarrow> rsearch r xs))"

text \<open>\<^verbatim>\<open>m.group(n)\<close>: \<open>None\<close> when group \<open>n\<close> took no part in the match.\<close>

definition group :: "mstate \<Rightarrow> nat \<Rightarrow> string option" where
  "group m n = map_of (snd m) n"

text \<open>Pattern syntax: a literal, a set \<^verbatim>\<open>[...]\<close>, \<^verbatim>\<open>\d\<close>, \<^verbatim>\<open>\s\<close>, \<^verbatim>\<open>.\<close>, \<^verbatim>\<open>r+\<close>, \<^verbatim>\<open>r{n}\<close>.\<close>

definition rx_lit :: "char \<Rightarrow> regex" where
  "rx_lit c = Atom (\<lambda>x. x = c)"

definition rx_set :: "string \<Rightarrow> regex" where
  "rx_set cs = Atom (\<lambda>x. x \<in> set cs)"

definition rx_digit :: regex where
  "rx_digit = Atom is_digit"

definition rx_space :: regex where
  "rx_space = Atom is_space"

definition rx_dot :: regex where
  "rx_dot = Atom (\<lambda>x. x \<noteq> CHR 0x0A)"

definition rx_plus :: "regex \<Rightarrow> regex" where
  "rx_plus r = Cat r (Star r)"

fun rx_seq :: "regex list \<Rightarrow> regex" where
  "rx_seq [] = Eps"
| "rx_seq (r # rs) = Cat r (rx_seq rs)"

definition rx_times :: "nat \<Rightarrow> regex \<Rightarrow> regex" where
  "rx_times n r = rx_seq (replicate n r)"

text \<open>
  The pattern of \<^verbatim>\<open>parse\<close>:
  \<^verbatim>\<open>([A-Z0-9-]+)\s*>\s*([A-Z0-9-]+)((?:,[A-Z0-9-*]+)*):(.*)\<close>
\<close>

definition base_rx :: regex where
  "base_rx = rx_seq
     [Group 1 (rx_plus (Atom is_addr_char)), Star rx_space, rx_lit CHR ''>'', Star rx_space,
      Group 2 (rx_plus (Atom is_addr_char)),
      Group 3 (Star (Cat (rx_lit CHR '','') (rx_plus (Atom is_path_char)))),
      rx_lit CHR '':'', Group 4 (Star rx_dot)]"

text \<open>
  The first pattern of \<^verbatim>\<open>_parse_position\<close>:
  \<^verbatim>\<open>[!=](\d{2})(\d{2}\.\d{2})([NS])/(\d{3})(\d{2}\.\d{2})([EW])\<close>
\<close>

definition pos_rx :: regex where
  "pos_rx = rx_seq
     [rx_set ''!='',
      Group 1 (rx_times 2 rx_digit),
      Group 2 (rx_seq [rx_times 2 rx_digit, rx_lit CHR ''.'', rx_times 2 rx_digit]),
      Group 3 (rx_set ''NS''),
      rx_lit CHR ''/'',
      Group 4 (rx_times 3 rx_digit),
      Group 5 (rx_seq [rx_times 2 rx_digit, rx_lit CHR ''.'', rx_times 2 rx_digit]),
      Group 6 (rx_set ''EW'')]"

text \<open>
  The second pattern of \<^verbatim>\<open>_parse_position\<close>:
  \<^verbatim>\<open>[NS]/\d{3}\d{2}\.\d{2}[EW](.*)\<close>
\<close>

definition after_rx :: regex where
  "after_rx = rx_seq
     [rx_set ''NS'', rx_lit CHR ''/'', rx_times 3 rx_digit, rx_times 2 rx_digit,
      rx_lit CHR ''.'', rx_times 2 rx_digit, rx_set ''EW'', Group 1 (Star rx_dot)]"

section \<open>The packet and its decoder\<close>

text \<open>
  The fields of \<^verbatim>\<open>APRSPacket\<close>. The time stamp is the clock reading
  \<^verbatim>\<open>datetime.datetime.now()\<close> of the constructor, passed in.
\<close>

record packet =
  raw :: string
  source :: string
  destination :: string
  path :: "string list"
  message_type :: string
  latitude :: "rat option"
  longitude :: "rat option"
  comment :: string
  timestamp :: nat

text \<open>
  The body of the \<^verbatim>\<open>try\<close> block of \<^verbatim>\<open>_parse_position\<close>: the packet as the block leaves it,
  and the exception it raised, if any. All conversions come before the first assignment,
  so an exception would leave the packet as it was. The comment is taken from a second
  search, with the pattern \<open>after_rx\<close>, over the whole content.
\<close>

definition parse_position_body :: "packet \<Rightarrow> string \<Rightarrow> packet \<times> py_error option" where
  "parse_position_body self content =
     (case rsearch pos_rx content of
        None \<Rightarrow> (self, None)
      | Some pos_match \<Rightarrow>
          (case py_int (group pos_match 1) of
             Inl e \<Rightarrow> (self, Some e)
           | Inr lat_deg \<Rightarrow>
          (case py_float (group pos_match 2) of
             Inl e \<Rightarrow> (self, Some e)
           | Inr lat_min \<Rightarrow>
          (case py_int (group pos_match 4) of
             Inl e \<Rightarrow> (self, Some e)
           | Inr lon_deg \<Rightarrow>
          (case py_float (group pos_match 5) of
             Inl e \<Rightarrow> (self, Some e)
           | Inr lon_min \<Rightarrow>
             (let lat_dir = group pos_match 3;
                  lon_dir = group pos_match 6;
                  lat = of_int lat_deg + lat_min / 60;
                  lat = (if lat_dir = Some ''S'' then - lat else lat);
                  lon = of_int lon_deg + lon_min / 60;
                  lon = (if lon_dir = Some ''W'' then - lon else lon);
                  self = self\<lparr>latitude := Some lat, longitude := Some lon\<rparr>
              in case rsearch after_rx content of
                   None \<Rightarrow> (self, None)
                 | Some after_pos \<Rightarrow>
                     (case group after_pos 1 of
                        None \<Rightarrow> (self, Some AttributeError)
                      | Some g \<Rightarrow> (self\<lparr>comment := strip g\<rparr>, None))))))))"

text \<open>\<^verbatim>\<open>_parse_position\<close>: the handler prints the exception and goes on with the packet.\<close>

definition parse_position :: "packet \<Rightarrow> string \<Rightarrow> packet" where
  "parse_position self content = fst (parse_position_body self content)"

text \<open>
  The body of the \<^verbatim>\<open>try\<close> block of \<^verbatim>\<open>parse\<close>: the packet as the block leaves it, and
  the exception it raised, if any. A group that took no part in the match would be
  \<^verbatim>\<open>None\<close> in Python; the model raises in that case at once. The four groups of the
  pattern take part in every match of it (\<open>base_groups_defined\<close> below), so that branch
  is never taken.
\<close>

definition parse_body :: "packet \<Rightarrow> packet \<times> py_error option" where
  "parse_body self =
     (case rsearch base_rx (raw self) of
        None \<Rightarrow> (self, None)
      | Some parts \<Rightarrow>
          (case (group parts 1, group parts 2, group parts 3, group parts 4) of
             (Some g1, Some g2, Some g3, Some g4) \<Rightarrow>
               (let self = self\<lparr>source := g1, destination := g2\<rparr>;
                    self = (if g3 \<noteq> [] then self\<lparr>path := split_on CHR '','' (drop 1 g3)\<rparr>
                            else self);
                    content = strip g4
                in if startswith content CHR ''!'' \<or> startswith content CHR ''=''
                   then (parse_position (self\<lparr>message_type := ''Position''\<rparr>) content, None)
                   else if startswith content CHR ''>''
                   then (self\<lparr>message_type := ''Status'', comment := strip (drop 1 content)\<rparr>, None)
                   else if startswith content CHR '':''
                   then (self\<lparr>message_type := ''Message'', comment := strip (drop 1 content)\<rparr>, None)
                   else if startswith content CHR ''T''
                   then (self\<lparr>message_type := ''Telemetry'', comment := strip content\<rparr>, None)
                   else (self\<lparr>message_type := ''Other'', comment := strip content\<rparr>, None))
           | _ \<Rightarrow> (self, Some TypeError)))"

definition parse :: "packet \<Rightarrow> packet" where
  "parse self = fst (parse_body self)"

text \<open>The fields as \<^verbatim>\<open>__init__\<close> sets them before it calls \<^verbatim>\<open>parse\<close>.\<close>

definition init_packet :: "string \<Rightarrow> nat \<Rightarrow> packet" where
  "init_packet raw_packet now =
     \<lparr>raw = raw_packet, source = [], destination = [], path = [], message_type = [],
      latitude = None, longitude = None, comment = [], timestamp = now\<rparr>"

text \<open>The constructor \<^verbatim>\<open>APRSPacket(raw_packet)\<close>, run at clock reading \<open>now\<close>.\<close>

definition APRSPacket :: "string \<Rightarrow> nat \<Rightarrow> packet" where
  "APRSPacket raw_packet now = parse (init_packet raw_packet now)"

section \<open>The re-encoding of the round-trip property\<close>

text \<open>
  These two functions are not part of the decoder. They are the re-encoding the
  specification's round-trip property speaks of, written from its words: a decimal-degree
  value is split into the whole degrees of its absolute value and the remaining minutes,
  and the minutes are taken to two decimal places (the nearest hundredth, a tie upward).
\<close>

definition round2 :: "rat \<Rightarrow> rat" where
  "round2 x = of_int (round (x * 100)) / 100"

definition reencode_spec :: "rat \<Rightarrow> int \<times> rat" where
  "reencode_spec x = (\<lfloor>\<bar>x\<bar>\<rfloor>, round2 ((\<bar>x\<bar> - of_int \<lfloor>\<bar>x\<bar>\<rfloor>) * 60))"

section \<open>Notions used in the proofs\<close>

text \<open>
  The language of a pattern, the groups it contains with their bodies, and the groups that
  take part in every match (those not under a star).
\<close>

inductive_set star_lang :: "string set \<Rightarrow> string set" for A :: "string set" where
  star_nil: "[] \<in> star_lang A"
| star_step: "u \<in> A \<Longrightarrow> v \<in> star_lang A \<Longrightarrow> u @ v \<in> star_lang A"

fun lang :: "regex \<Rightarrow> string set" where
  "lang (Atom P) = {[x] | x. P x}"
| "lang Eps = {[]}"
| "lang (Cat r1 r2) = {u @ v | u v. u \<in> lang r1 \<and> v \<in> lang r2}"
| "lang (Star r) = star_lang (lang r)"
| "lang (Group n r) = lang r"

fun groups :: "regex \<Rightarrow> (nat \<times> regex) set" where
  "groups (Atom P) = {}"
| "groups Eps = {}"
| "groups (Cat r1 r2) = groups r1 \<union> groups r2"
| "groups (Star r) = groups r"
| "groups (Group n r) = insert (n, r) (groups r)"

fun must :: "regex \<Rightarrow> nat set" where
  "must (Atom P) = {}"
| "must Eps = {}"
| "must (Cat r1 r2) = must r1 \<union> must r2"
| "must (Star r) = {}"
| "must (Group n r) = insert n (must r)"

text \<open>The value \<^verbatim>\<open>_parse_position\<close> stores: degrees plus minutes over 60, negated for S or W.\<close>

definition signed_degrees :: "int \<Rightarrow> rat \<Rightarrow> bool \<Rightarrow> rat" where
  "signed_degrees deg mins neg = (if neg then - (of_int deg + mins / 60) else of_int deg + mins / 60)"

text \<open>The packet of \<^verbatim>\<open>parse\<close> once source, destination and path are assigned.\<close>

definition with_address :: "packet \<Rightarrow> string \<Rightarrow> string \<Rightarrow> string \<Rightarrow> packet" where
  "with_address self g1 g2 g3 =
     self\<lparr>source := g1, destination := g2,
          path := (if g3 \<noteq> [] then split_on CHR '','' (drop 1 g3) else path self)\<rparr>"

text \<open>A path element as the pattern admits it: a non-empty run of \<^verbatim>\<open>[A-Z0-9-*]\<close>.\<close>

definition good_segment :: "string \<Rightarrow> bool" where
  "good_segment e \<longleftrightarrow> e \<noteq> [] \<and> list_all is_path_char e"

section \<open>Every match is in the language of its pattern\<close>

declare rsearch.simps [simp del]

lemmas rmatch_star = rmatch.simps(4)

declare rmatch.simps(4) [simp del]

lemma rmatch_star_cases:
  assumes "st' \<in> set (rmatch (Star r) st)"
  shows "st' = st \<or> (\<exists>st1. st1 \<in> set (rmatch r st) \<and> length (fst st1) < length (fst st)
           \<and> st' \<in> set (rmatch (Star r) st1))"
proof -
  from assms have "st' \<in> set (concat (map (rmatch (Star r))
       (filter (\<lambda>st'. length (fst st') < length (fst st)) (rmatch r st))) @ [st])"
    by (simp only: rmatch_star)
  then show ?thesis by auto
qed

lemma rmatch_sound:
  "st' \<in> set (rmatch r st) \<Longrightarrow> \<exists>w. fst st = w @ fst st' \<and> w \<in> lang r"
proof (induction r st arbitrary: st' rule: rmatch.induct)
  case (1 P st)
  then show ?case by (cases st) (auto split: list.splits if_splits)
next
  case (2 st)
  then show ?case by simp
next
  case (3 r1 r2 st)
  from "3.prems" obtain st1 where a: "st1 \<in> set (rmatch r1 st)" and b: "st' \<in> set (rmatch r2 st1)"
    by auto
  from "3.IH"(1)[OF a] obtain w1 where w1: "fst st = w1 @ fst st1" "w1 \<in> lang r1" by blast
  from "3.IH"(2)[OF a b] obtain w2 where w2: "fst st1 = w2 @ fst st'" "w2 \<in> lang r2" by blast
  from w1 w2 have "fst st = (w1 @ w2) @ fst st'" "w1 @ w2 \<in> lang (Cat r1 r2)" by auto
  then show ?case by blast
next
  case (4 r st)
  show ?case
  proof (cases "st' = st")
    case True
    then show ?thesis by (auto intro: star_nil)
  next
    case False
    with rmatch_star_cases[OF "4.prems"(1)] obtain st1 where a: "st1 \<in> set (rmatch r st)"
      and l: "length (fst st1) < length (fst st)" and b: "st' \<in> set (rmatch (Star r) st1)"
      by blast
    from "4.IH"(1)[OF a] obtain w1 where w1: "fst st = w1 @ fst st1" "w1 \<in> lang r" by blast
    from a l have "st1 \<in> set (filter (\<lambda>st'. length (fst st') < length (fst st)) (rmatch r st))" by simp
    from "4.IH"(2)[OF this b] obtain w2 where w2: "fst st1 = w2 @ fst st'" "w2 \<in> lang (Star r)" by blast
    from w1 w2 have "fst st = (w1 @ w2) @ fst st'" "w1 @ w2 \<in> lang (Star r)"
      by (auto intro: star_step)
    then show ?thesis by blast
  qed
next
  case (5 n r st)
  then show ?case by auto
qed

lemma rmatch_caps:
  "st' \<in> set (rmatch r st) \<Longrightarrow> map_of (snd st') n = Some w \<Longrightarrow>
   map_of (snd st) n = Some w \<or> (\<exists>g. (n, g) \<in> groups r \<and> w \<in> lang g)"
proof (induction r st arbitrary: st' rule: rmatch.induct)
  case (1 P st)
  then show ?case by (cases st) (auto split: list.splits if_splits)
next
  case (2 st)
  then show ?case by simp
next
  case (3 r1 r2 st)
  from "3.prems" obtain st1 where a: "st1 \<in> set (rmatch r1 st)" and b: "st' \<in> set (rmatch r2 st1)"
    by auto
  from "3.IH"(2)[OF a b "3.prems"(2)]
  have "map_of (snd st1) n = Some w \<or> (\<exists>g. (n, g) \<in> groups r2 \<and> w \<in> lang g)" .
  then show ?case
  proof
    assume "map_of (snd st1) n = Some w"
    from "3.IH"(1)[OF a this] show ?thesis by auto
  next
    assume "\<exists>g. (n, g) \<in> groups r2 \<and> w \<in> lang g"
    then show ?thesis by auto
  qed
next
  case (4 r st)
  show ?case
  proof (cases "st' = st")
    case True
    with "4.prems" show ?thesis by simp
  next
    case False
    with rmatch_star_cases[OF "4.prems"(1)] obtain st1 where a: "st1 \<in> set (rmatch r st)"
      and l: "length (fst st1) < length (fst st)" and b: "st' \<in> set (rmatch (Star r) st1)"
      by blast
    from a l have f: "st1 \<in> set (filter (\<lambda>st'. length (fst st') < length (fst st)) (rmatch r st))" by simp
    from "4.IH"(2)[OF f b "4.prems"(2)]
    have "map_of (snd st1) n = Some w \<or> (\<exists>g. (n, g) \<in> groups (Star r) \<and> w \<in> lang g)" .
    then show ?thesis
    proof
      assume "map_of (snd st1) n = Some w"
      from "4.IH"(1)[OF a this] show ?thesis by auto
    next
      assume "\<exists>g. (n, g) \<in> groups (Star r) \<and> w \<in> lang g"
      then show ?thesis by auto
    qed
  qed
next
  case (5 m r st)
  from "5.prems" obtain st1 where a: "st1 \<in> set (rmatch r st)"
    and e: "st' = (fst st1, (m, take (length (fst st) - length (fst st1)) (fst st)) # snd st1)"
    by auto
  from rmatch_sound[OF a] obtain w1 where w1: "fst st = w1 @ fst st1" "w1 \<in> lang r" by blast
  show ?case
  proof (cases "n = m")
    case True
    with e "5.prems"(2) w1 have "w = w1" by simp
    with w1 True show ?thesis by auto
  next
    case False
    with e "5.prems"(2) have "map_of (snd st1) n = Some w" by simp
    from "5.IH"[OF a this] show ?thesis by auto
  qed
qed

lemma rmatch_defined:
  "st' \<in> set (rmatch r st) \<Longrightarrow> n \<in> must r \<or> map_of (snd st) n \<noteq> None \<Longrightarrow>
   map_of (snd st') n \<noteq> None"
proof (induction r st arbitrary: st' rule: rmatch.induct)
  case (1 P st)
  then show ?case by (cases st) (auto split: list.splits if_splits)
next
  case (2 st)
  then show ?case by simp
next
  case (3 r1 r2 st)
  from "3.prems" obtain st1 where a: "st1 \<in> set (rmatch r1 st)" and b: "st' \<in> set (rmatch r2 st1)"
    by auto
  show ?case
  proof (cases "n \<in> must r2")
    case True
    then show ?thesis using "3.IH"(2)[OF a b] by blast
  next
    case False
    with "3.prems"(2) have "n \<in> must r1 \<or> map_of (snd st) n \<noteq> None" by auto
    from "3.IH"(1)[OF a this] have "map_of (snd st1) n \<noteq> None" .
    then show ?thesis using "3.IH"(2)[OF a b] by blast
  qed
next
  case (4 r st)
  from "4.prems"(2) have d: "map_of (snd st) n \<noteq> None" by simp
  show ?case
  proof (cases "st' = st")
    case True
    with d show ?thesis by simp
  next
    case False
    with rmatch_star_cases[OF "4.prems"(1)] obtain st1 where a: "st1 \<in> set (rmatch r st)"
      and l: "length (fst st1) < length (fst st)" and b: "st' \<in> set (rmatch (Star r) st1)"
      by blast
    from a l have f: "st1 \<in> set (filter (\<lambda>st'. length (fst st') < length (fst st)) (rmatch r st))" by simp
    from "4.IH"(1)[OF a] d have "map_of (snd st1) n \<noteq> None" by blast
    then show ?thesis using "4.IH"(2)[OF f b] by blast
  qed
next
  case (5 m r st)
  from "5.prems" obtain st1 where a: "st1 \<in> set (rmatch r st)"
    and e: "st' = (fst st1, (m, take (length (fst st) - length (fst st1)) (fst st)) # snd st1)"
    by auto
  show ?case
  proof (cases "n = m")
    case True
    with e show ?thesis by simp
  next
    case False
    with "5.prems"(2) have "n \<in> must r \<or> map_of (snd st) n \<noteq> None" by auto
    from "5.IH"[OF a this] e False show ?thesis by simp
  qed
qed

lemma rsearch_rmatch:
  "rsearch r s = Some m \<Longrightarrow> \<exists>t. m \<in> set (rmatch r (t, []))"
proof (induction s)
  case Nil
  then have "m \<in> set (rmatch r ([], []))" by (auto simp: rsearch.simps[of r "[]"] split: list.splits)
  then show ?case by blast
next
  case (Cons x xs)
  show ?case
  proof (cases "rmatch r (x # xs, [])")
    case Nil
    with Cons.prems have "rsearch r xs = Some m" by (simp add: rsearch.simps[of r "x # xs"])
    from Cons.IH[OF this] show ?thesis .
  next
    case (Cons st sts)
    with Cons.prems have "m = st" by (simp add: rsearch.simps[of r "x # xs"])
    with Cons have "m \<in> set (rmatch r (x # xs, []))" by simp
    then show ?thesis by blast
  qed
qed

lemma rsearch_group:
  assumes "rsearch r s = Some m" and "n \<in> must r"
  shows "\<exists>w g. group m n = Some w \<and> (n, g) \<in> groups r \<and> w \<in> lang g"
proof -
  from rsearch_rmatch[OF assms(1)] obtain t where t: "m \<in> set (rmatch r (t, []))" by blast
  from rmatch_defined[OF t, of n] assms(2) obtain w where w: "map_of (snd m) n = Some w" by auto
  from rmatch_caps[OF t w] obtain g where "(n, g) \<in> groups r" "w \<in> lang g" by auto
  with w show ?thesis by (auto simp: group_def)
qed

section \<open>The languages and groups of the three patterns\<close>

lemma star_atom_lang: "w \<in> star_lang (lang (Atom P)) \<Longrightarrow> list_all P w"
  by (induction rule: star_lang.induct) auto

lemma plus_atom_lang:
  assumes "w \<in> lang (rx_plus (Atom P))"
  shows "w \<noteq> [] \<and> list_all P w"
proof -
  from assms obtain x v where "w = [x] @ v" "P x" "v \<in> star_lang (lang (Atom P))"
    by (auto simp: rx_plus_def)
  then show ?thesis using star_atom_lang[of v P] by simp
qed

lemma times2_digit_lang:
  "w \<in> lang (rx_times 2 rx_digit) \<Longrightarrow> \<exists>a b. w = [a, b] \<and> is_digit a \<and> is_digit b"
  by (auto simp: rx_times_def rx_digit_def numeral_2_eq_2)

lemma times3_digit_lang:
  "w \<in> lang (rx_times 3 rx_digit) \<Longrightarrow>
   \<exists>a b c. w = [a, b, c] \<and> is_digit a \<and> is_digit b \<and> is_digit c"
  by (auto simp: rx_times_def rx_digit_def numeral_3_eq_3)

lemma minutes_lang:
  "w \<in> lang (rx_seq [rx_times 2 rx_digit, rx_lit CHR ''.'', rx_times 2 rx_digit]) \<Longrightarrow>
   \<exists>a b c d. w = [a, b, CHR ''.'', c, d] \<and> is_digit a \<and> is_digit b \<and> is_digit c \<and> is_digit d"
  by (auto simp: rx_times_def rx_digit_def rx_lit_def numeral_2_eq_2)

lemma set_lang: "w \<in> lang (rx_set cs) \<Longrightarrow> \<exists>x. w = [x] \<and> x \<in> set cs"
  by (auto simp: rx_set_def)

lemma must_atoms [simp]:
  "must (rx_lit c) = {}" "must (rx_set cs) = {}" "must rx_digit = {}" "must rx_space = {}"
  "must rx_dot = {}" "must (rx_plus r) = must r"
  by (simp_all add: rx_lit_def rx_set_def rx_digit_def rx_space_def rx_dot_def rx_plus_def)

lemma groups_atoms [simp]:
  "groups (rx_lit c) = {}" "groups (rx_set cs) = {}" "groups rx_digit = {}"
  "groups rx_space = {}" "groups rx_dot = {}" "groups (rx_plus r) = groups r"
  by (simp_all add: rx_lit_def rx_set_def rx_digit_def rx_space_def rx_dot_def rx_plus_def)

lemma must_times_digit [simp]: "must (rx_times n rx_digit) = {}"
  by (induction n) (simp_all add: rx_times_def)

lemma groups_times_digit [simp]: "groups (rx_times n rx_digit) = {}"
  by (induction n) (simp_all add: rx_times_def)

lemma must_base: "must base_rx = {1, 2, 3, 4}"
  by (auto simp: base_rx_def)

lemma groups_base:
  "groups base_rx =
     {(1, rx_plus (Atom is_addr_char)), (2, rx_plus (Atom is_addr_char)),
      (3, Star (Cat (rx_lit CHR '','') (rx_plus (Atom is_path_char)))), (4, Star rx_dot)}"
  by (auto simp: base_rx_def)

lemma must_pos: "must pos_rx = {1, 2, 3, 4, 5, 6}"
  by (auto simp: pos_rx_def)

lemma groups_pos:
  "groups pos_rx =
     {(1, rx_times 2 rx_digit),
      (2, rx_seq [rx_times 2 rx_digit, rx_lit CHR ''.'', rx_times 2 rx_digit]),
      (3, rx_set ''NS''),
      (4, rx_times 3 rx_digit),
      (5, rx_seq [rx_times 2 rx_digit, rx_lit CHR ''.'', rx_times 2 rx_digit]),
      (6, rx_set ''EW'')}"
  by (auto simp: pos_rx_def)

lemma must_after: "must after_rx = {1}"
  by (auto simp: after_rx_def)

lemma digit_val_le: "is_digit c \<Longrightarrow> digit_val c \<le> 9"
  by (auto simp: is_digit_def digit_val_def)

lemma py_int2:
  "is_digit a \<Longrightarrow> is_digit b \<Longrightarrow>
   py_int (Some [a, b]) = Inr (int (10 * digit_val a + digit_val b))"
  by (simp add: py_int_def digits_val_def)

lemma py_int3:
  "is_digit a \<Longrightarrow> is_digit b \<Longrightarrow> is_digit c \<Longrightarrow>
   py_int (Some [a, b, c]) = Inr (int (100 * digit_val a + 10 * digit_val b + digit_val c))"
  by (simp add: py_int_def digits_val_def)

lemma not_digit_point: "\<not> is_digit CHR ''.''"
  by (simp add: is_digit_def)

lemma py_float5:
  "is_digit a \<Longrightarrow> is_digit b \<Longrightarrow> is_digit c \<Longrightarrow> is_digit d \<Longrightarrow>
   py_float (Some [a, b, CHR ''.'', c, d]) =
     Inr (of_nat (10 * digit_val a + digit_val b) + of_nat (10 * digit_val c + digit_val d) / 100)"
  by (simp add: py_float_def digits_val_def not_digit_point)

section \<open>The groups of a position match and their values\<close>

lemma pos_group_lang:
  assumes "rsearch pos_rx content = Some m" and "(n, g) \<in> groups pos_rx"
  shows "\<exists>w. group m n = Some w \<and> w \<in> lang g"
proof -
  from assms(2) have n: "n \<in> must pos_rx" by (auto simp: groups_pos must_pos)
  from rsearch_group[OF assms(1) n] obtain w g' where
    w: "group m n = Some w" "(n, g') \<in> groups pos_rx" "w \<in> lang g'" by blast
  from w(2) assms(2) have "g' = g" by (auto simp: groups_pos)
  with w show ?thesis by blast
qed

lemma pos_lat_deg:
  assumes "rsearch pos_rx content = Some m"
  shows "\<exists>n. py_int (group m 1) = Inr (int n) \<and> n \<le> 99"
proof -
  have "(1, rx_times 2 rx_digit) \<in> groups pos_rx"
    by (simp add: groups_pos)
  from pos_group_lang[OF assms this] obtain w where
    w: "group m 1 = Some w" "w \<in> lang (rx_times 2 rx_digit)" by blast
  from times2_digit_lang[OF w(2)] obtain a b where
    ab: "w = [a, b]" "is_digit a" "is_digit b" by blast
  from ab digit_val_le[of a] digit_val_le[of b]
  have "10 * digit_val a + digit_val b \<le> 99" by simp
  moreover from w ab py_int2[of a b]
  have "py_int (group m 1) = Inr (int (10 * digit_val a + digit_val b))" by simp
  ultimately show ?thesis by blast
qed

lemma pos_lon_deg:
  assumes "rsearch pos_rx content = Some m"
  shows "\<exists>n. py_int (group m 4) = Inr (int n) \<and> n \<le> 999"
proof -
  have "(4, rx_times 3 rx_digit) \<in> groups pos_rx"
    by (simp add: groups_pos)
  from pos_group_lang[OF assms this] obtain w where
    w: "group m 4 = Some w" "w \<in> lang (rx_times 3 rx_digit)" by blast
  from times3_digit_lang[OF w(2)] obtain a b c where
    abc: "w = [a, b, c]" "is_digit a" "is_digit b" "is_digit c" by blast
  from abc digit_val_le[of a] digit_val_le[of b] digit_val_le[of c]
  have "100 * digit_val a + 10 * digit_val b + digit_val c \<le> 999" by simp
  moreover from w abc py_int3[of a b c]
  have "py_int (group m 4) = Inr (int (100 * digit_val a + 10 * digit_val b + digit_val c))"
    by simp
  ultimately show ?thesis by blast
qed

lemma minutes_value:
  assumes "w \<in> lang (rx_seq [rx_times 2 rx_digit, rx_lit CHR ''.'', rx_times 2 rx_digit])"
  shows "\<exists>n. py_float (Some w) = Inr (of_nat n / 100) \<and> n \<le> 9999"
proof -
  from minutes_lang[OF assms] obtain a b c d where
    w: "w = [a, b, CHR ''.'', c, d]" "is_digit a" "is_digit b" "is_digit c" "is_digit d"
    by blast
  let ?n = "100 * (10 * digit_val a + digit_val b) + (10 * digit_val c + digit_val d)"
  from w digit_val_le[of a] digit_val_le[of b] digit_val_le[of c] digit_val_le[of d]
  have le: "?n \<le> 9999" by simp
  have "(of_nat (10 * digit_val a + digit_val b) :: rat)
          + of_nat (10 * digit_val c + digit_val d) / 100 = of_nat ?n / 100"
    by (simp add: field_simps)
  with w py_float5[of a b c d] have "py_float (Some w) = Inr (of_nat ?n / 100)" by simp
  with le show ?thesis by blast
qed

lemma pos_lat_min:
  assumes "rsearch pos_rx content = Some m"
  shows "\<exists>n. py_float (group m 2) = Inr (of_nat n / 100) \<and> n \<le> 9999"
proof -
  have "(2, rx_seq [rx_times 2 rx_digit, rx_lit CHR ''.'', rx_times 2 rx_digit]) \<in> groups pos_rx"
    by (simp add: groups_pos)
  from pos_group_lang[OF assms this] obtain w where
    w: "group m 2 = Some w"
    "w \<in> lang (rx_seq [rx_times 2 rx_digit, rx_lit CHR ''.'', rx_times 2 rx_digit])" by blast
  from minutes_value[OF w(2)] w(1) show ?thesis by simp
qed

lemma pos_lon_min:
  assumes "rsearch pos_rx content = Some m"
  shows "\<exists>n. py_float (group m 5) = Inr (of_nat n / 100) \<and> n \<le> 9999"
proof -
  have "(5, rx_seq [rx_times 2 rx_digit, rx_lit CHR ''.'', rx_times 2 rx_digit]) \<in> groups pos_rx"
    by (simp add: groups_pos)
  from pos_group_lang[OF assms this] obtain w where
    w: "group m 5 = Some w"
    "w \<in> lang (rx_seq [rx_times 2 rx_digit, rx_lit CHR ''.'', rx_times 2 rx_digit])" by blast
  from minutes_value[OF w(2)] w(1) show ?thesis by simp
qed

lemma pos_lat_dir:
  assumes "rsearch pos_rx content = Some m"
  shows "group m 3 = Some ''N'' \<or> group m 3 = Some ''S''"
proof -
  have "(3, rx_set ''NS'') \<in> groups pos_rx"
    by (simp add: groups_pos)
  from pos_group_lang[OF assms this] obtain w where
    w: "group m 3 = Some w" "w \<in> lang (rx_set ''NS'')" by blast
  from set_lang[OF w(2)] w(1) show ?thesis by auto
qed

lemma pos_lon_dir:
  assumes "rsearch pos_rx content = Some m"
  shows "group m 6 = Some ''E'' \<or> group m 6 = Some ''W''"
proof -
  have "(6, rx_set ''EW'') \<in> groups pos_rx"
    by (simp add: groups_pos)
  from pos_group_lang[OF assms this] obtain w where
    w: "group m 6 = Some w" "w \<in> lang (rx_set ''EW'')" by blast
  from set_lang[OF w(2)] w(1) show ?thesis by auto
qed

lemma after_group:
  assumes "rsearch after_rx content = Some m"
  shows "\<exists>g. group m 1 = Some g"
proof -
  have "1 \<in> must after_rx" by (simp add: must_after)
  from rsearch_group[OF assms this] show ?thesis by blast
qed

lemma parse_position_body_match:
  assumes "rsearch pos_rx content = Some m"
    and "py_int (group m 1) = Inr lat_deg" and "py_float (group m 2) = Inr lat_min"
    and "py_int (group m 4) = Inr lon_deg" and "py_float (group m 5) = Inr lon_min"
  shows "\<exists>c. parse_position_body self content =
           (self\<lparr>latitude := Some (signed_degrees lat_deg lat_min (group m 3 = Some ''S'')),
                 longitude := Some (signed_degrees lon_deg lon_min (group m 6 = Some ''W'')),
                 comment := c\<rparr>, None)"
proof (cases "rsearch after_rx content")
  case None
  with assms have "parse_position_body self content =
           (self\<lparr>latitude := Some (signed_degrees lat_deg lat_min (group m 3 = Some ''S'')),
                 longitude := Some (signed_degrees lon_deg lon_min (group m 6 = Some ''W'')),
                 comment := comment self\<rparr>, None)"
    by (simp add: parse_position_body_def signed_degrees_def Let_def)
  then show ?thesis by blast
next
  case (Some ap)
  from after_group[OF Some] obtain g where g: "group ap 1 = Some g" by blast
  with Some assms have "parse_position_body self content =
           (self\<lparr>latitude := Some (signed_degrees lat_deg lat_min (group m 3 = Some ''S'')),
                 longitude := Some (signed_degrees lon_deg lon_min (group m 6 = Some ''W'')),
                 comment := strip g\<rparr>, None)"
    by (simp add: parse_position_body_def signed_degrees_def Let_def)
  then show ?thesis by blast
qed

lemma parse_position_body_no_match:
  "rsearch pos_rx content = None \<Longrightarrow> parse_position_body self content = (self, None)"
  by (simp add: parse_position_body_def)

lemma parse_position_never_raises: "snd (parse_position_body self content) = None"
proof (cases "rsearch pos_rx content")
  case None
  then show ?thesis by (simp add: parse_position_body_no_match)
next
  case (Some m)
  from pos_lat_deg[OF Some] pos_lat_min[OF Some] pos_lon_deg[OF Some] pos_lon_min[OF Some]
  obtain a b c d where "py_int (group m 1) = Inr a" "py_float (group m 2) = Inr b"
    "py_int (group m 4) = Inr c" "py_float (group m 5) = Inr d" by blast
  from parse_position_body_match[OF Some this, of self] show ?thesis by auto
qed

section \<open>What the two parsers change\<close>

lemma parse_position_cases:
  "(rsearch pos_rx content = None \<and> parse_position self content = self) \<or>
   (\<exists>lat lon c. rsearch pos_rx content \<noteq> None \<and>
      parse_position self content = self\<lparr>latitude := Some lat, longitude := Some lon, comment := c\<rparr>)"
proof (cases "rsearch pos_rx content")
  case None
  then show ?thesis by (simp add: parse_position_def parse_position_body_no_match)
next
  case (Some m)
  from pos_lat_deg[OF Some] pos_lat_min[OF Some] pos_lon_deg[OF Some] pos_lon_min[OF Some]
  obtain a b c d where "py_int (group m 1) = Inr a" "py_float (group m 2) = Inr b"
    "py_int (group m 4) = Inr c" "py_float (group m 5) = Inr d" by blast
  from parse_position_body_match[OF Some this, of self] obtain c' where
    "parse_position_body self content =
       (self\<lparr>latitude := Some (signed_degrees a b (group m 3 = Some ''S'')),
             longitude := Some (signed_degrees c d (group m 6 = Some ''W'')),
             comment := c'\<rparr>, None)" by blast
  then have "parse_position self content =
       self\<lparr>latitude := Some (signed_degrees a b (group m 3 = Some ''S'')),
            longitude := Some (signed_degrees c d (group m 6 = Some ''W'')),
            comment := c'\<rparr>" by (simp add: parse_position_def)
  moreover from Some have "rsearch pos_rx content \<noteq> None" by simp
  ultimately show ?thesis by blast
qed

lemma parse_position_keeps:
  "message_type (parse_position self content) = message_type self"
  "path (parse_position self content) = path self"
  "source (parse_position self content) = source self"
  "destination (parse_position self content) = destination self"
  "raw (parse_position self content) = raw self"
  "timestamp (parse_position self content) = timestamp self"
  using parse_position_cases[of content self] by auto

lemma parse_position_both:
  "latitude self = None \<Longrightarrow> longitude self = None \<Longrightarrow>
   (latitude (parse_position self content) = None) = (longitude (parse_position self content) = None)"
  using parse_position_cases[of content self] by auto

lemma base_group_lang:
  assumes "rsearch base_rx line = Some parts" and "(n, g) \<in> groups base_rx"
  shows "\<exists>w. group parts n = Some w \<and> w \<in> lang g"
proof -
  from assms(2) have n: "n \<in> must base_rx" by (auto simp: groups_base must_base)
  from rsearch_group[OF assms(1) n] obtain w g' where
    w: "group parts n = Some w" "(n, g') \<in> groups base_rx" "w \<in> lang g'" by blast
  from w(2) assms(2) have "g' = g" by (auto simp: groups_base)
  with w show ?thesis by blast
qed

lemma base_groups_defined:
  assumes "rsearch base_rx line = Some parts"
  shows "\<exists>g1 g2 g3 g4. group parts 1 = Some g1 \<and> group parts 2 = Some g2 \<and>
           group parts 3 = Some g3 \<and> group parts 4 = Some g4"
proof -
  have "1 \<in> must base_rx" "2 \<in> must base_rx" "3 \<in> must base_rx" "4 \<in> must base_rx"
    by (simp_all add: must_base)
  from this[THEN rsearch_group[OF assms]] show ?thesis by blast
qed

lemma parse_body_match:
  assumes "rsearch base_rx (raw self) = Some parts"
    and "group parts 1 = Some g1" and "group parts 2 = Some g2"
    and "group parts 3 = Some g3" and "group parts 4 = Some g4"
  shows "parse_body self =
     (let self = with_address self g1 g2 g3; content = strip g4
      in if startswith content CHR ''!'' \<or> startswith content CHR ''=''
         then parse_position (self\<lparr>message_type := ''Position''\<rparr>) content
         else if startswith content CHR ''>''
         then self\<lparr>message_type := ''Status'', comment := strip (drop 1 content)\<rparr>
         else if startswith content CHR '':''
         then self\<lparr>message_type := ''Message'', comment := strip (drop 1 content)\<rparr>
         else if startswith content CHR ''T''
         then self\<lparr>message_type := ''Telemetry'', comment := strip content\<rparr>
         else self\<lparr>message_type := ''Other'', comment := strip content\<rparr>, None)"
  using assms by (simp add: parse_body_def with_address_def Let_def)

lemma parse_body_no_match:
  "rsearch base_rx (raw self) = None \<Longrightarrow> parse_body self = (self, None)"
  by (simp add: parse_body_def)

lemma parse_never_raises: "snd (parse_body self) = None"
proof (cases "rsearch base_rx (raw self)")
  case None
  then show ?thesis by (simp add: parse_body_no_match)
next
  case (Some parts)
  from base_groups_defined[OF Some] obtain g1 g2 g3 g4 where
    "group parts 1 = Some g1" "group parts 2 = Some g2"
    "group parts 3 = Some g3" "group parts 4 = Some g4" by blast
  from parse_body_match[OF Some this] show ?thesis by (simp add: Let_def)
qed

section \<open>Splitting the path\<close>

lemma split_acc_no_sep:
  "sep \<notin> set seg \<Longrightarrow> split_acc sep acc seg = [rev acc @ seg]"
  by (induction seg arbitrary: acc) auto

lemma split_acc_sep:
  "sep \<notin> set seg \<Longrightarrow>
   split_acc sep acc (seg @ sep # rest) = (rev acc @ seg) # split_acc sep [] rest"
  by (induction seg arbitrary: acc) auto

lemma split_acc_segments:
  "sep \<notin> set seg \<Longrightarrow> \<forall>s \<in> set segs. sep \<notin> set s \<Longrightarrow>
   split_acc sep [] (seg @ concat (map ((#) sep) segs)) = seg # segs"
proof (induction segs arbitrary: seg)
  case Nil
  then show ?case by (simp add: split_acc_no_sep)
next
  case (Cons s segs)
  from Cons.prems have "split_acc sep [] (seg @ sep # (s @ concat (map ((#) sep) segs)))
      = seg # split_acc sep [] (s @ concat (map ((#) sep) segs))"
    by (simp add: split_acc_sep)
  with Cons show ?case by simp
qed

lemma split_on_segments:
  assumes "segs \<noteq> []" and "\<forall>s \<in> set segs. sep \<notin> set s"
  shows "split_on sep (drop 1 (concat (map ((#) sep) segs))) = segs"
proof -
  from assms(1) obtain s rest where sr: "segs = s # rest" by (cases segs) auto
  with assms(2) have "sep \<notin> set s" "\<forall>t \<in> set rest. sep \<notin> set t" by auto
  from split_acc_segments[OF this] sr show ?thesis by (simp add: split_on_def)
qed

lemma path_lang:
  assumes "w \<in> star_lang (lang (Cat (rx_lit CHR '','') (rx_plus (Atom is_path_char))))"
  shows "\<exists>segs. w = concat (map ((#) CHR '','') segs) \<and> list_all good_segment segs"
  using assms
proof (induction rule: star_lang.induct)
  case star_nil
  have "[] = concat (map ((#) CHR '','') []) \<and> list_all good_segment []" by simp
  then show ?case by blast
next
  case (star_step u v)
  from star_step.IH obtain segs where
    segs: "v = concat (map ((#) CHR '','') segs)" "list_all good_segment segs" by blast
  from star_step.hyps(1) obtain e where e: "u = CHR '','' # e" "e \<in> lang (rx_plus (Atom is_path_char))"
    by (auto simp: rx_lit_def)
  from plus_atom_lang[OF e(2)] have "good_segment e" by (simp add: good_segment_def)
  with segs e have "u @ v = concat (map ((#) CHR '','') (e # segs)) \<and> list_all good_segment (e # segs)"
    by simp
  then show ?case by blast
qed

lemma comma_not_path_char: "good_segment e \<Longrightarrow> CHR '','' \<notin> set e"
proof -
  have "\<not> is_path_char CHR '',''" by (simp add: is_path_char_def)
  then show "good_segment e \<Longrightarrow> CHR '','' \<notin> set e"
    by (auto simp: good_segment_def list_all_iff)
qed

lemma base_path_group:
  assumes "rsearch base_rx line = Some parts"
  shows "\<exists>segs. group parts 3 = Some (concat (map ((#) CHR '','') segs)) \<and>
           list_all good_segment segs \<and>
           (if concat (map ((#) CHR '','') segs) \<noteq> []
            then split_on CHR '','' (drop 1 (concat (map ((#) CHR '','') segs))) else []) = segs"
proof -
  have "(3, Star (Cat (rx_lit CHR '','') (rx_plus (Atom is_path_char)))) \<in> groups base_rx"
    by (simp add: groups_base)
  from base_group_lang[OF assms this] obtain w where
    w: "group parts 3 = Some w"
       "w \<in> star_lang (lang (Cat (rx_lit CHR '','') (rx_plus (Atom is_path_char))))"
    by auto
  from path_lang[OF w(2)] obtain segs where
    segs: "w = concat (map ((#) CHR '','') segs)" "list_all good_segment segs" by blast
  have "(if concat (map ((#) CHR '','') segs) \<noteq> []
            then split_on CHR '','' (drop 1 (concat (map ((#) CHR '','') segs))) else []) = segs"
  proof (cases segs)
    case Nil
    then show ?thesis by simp
  next
    case (Cons s rest)
    then have ne: "segs \<noteq> []" by simp
    from segs(2) have "\<forall>s \<in> set segs. CHR '','' \<notin> set s"
      by (auto simp: list_all_iff comma_not_path_char)
    from split_on_segments[OF ne this] Cons show ?thesis by simp
  qed
  with w segs show ?thesis by blast
qed

lemma parse_path:
  assumes "rsearch base_rx (raw self) = Some parts"
    and "group parts 3 = Some g3"
  shows "path (parse self) = (if g3 \<noteq> [] then split_on CHR '','' (drop 1 g3) else path self)"
proof -
  from base_groups_defined[OF assms(1)] assms(2) obtain g1 g2 g4 where
    g: "group parts 1 = Some g1" "group parts 2 = Some g2" "group parts 4 = Some g4"
    by auto
  from parse_body_match[OF assms(1) g(1,2) assms(2) g(3)]
  show ?thesis
    by (simp add: parse_def Let_def with_address_def parse_position_keeps)
qed

lemma parse_no_match: "rsearch base_rx (raw self) = None \<Longrightarrow> parse self = self"
  by (simp add: parse_def parse_body_no_match)

section \<open>The constructor\<close>

lemma APRSPacket_no_match:
  assumes "rsearch base_rx line = None"
  shows "APRSPacket line now = init_packet line now"
proof -
  from assms have "rsearch base_rx (raw (init_packet line now)) = None"
    by (simp add: init_packet_def)
  from parse_no_match[OF this] show ?thesis by (simp add: APRSPacket_def)
qed

lemma parse_message_type:
  assumes "rsearch base_rx (raw self) = Some parts" and "group parts 4 = Some g4"
  shows "message_type (parse self) =
     (case strip g4 of
        [] \<Rightarrow> ''Other''
      | c # _ \<Rightarrow>
          if c = CHR ''!'' \<or> c = CHR ''='' then ''Position''
          else if c = CHR ''>'' then ''Status''
          else if c = CHR '':'' then ''Message''
          else if c = CHR ''T'' then ''Telemetry''
          else ''Other'')"
proof -
  from base_groups_defined[OF assms(1)] assms(2) obtain g1 g2 g3 where
    g: "group parts 1 = Some g1" "group parts 2 = Some g2" "group parts 3 = Some g3"
    by auto
  from parse_body_match[OF assms(1) g assms(2)]
  show ?thesis
    by (cases "strip g4")
       (simp_all add: parse_def Let_def startswith_def parse_position_keeps)
qed

lemma parse_lat_lon:
  assumes "latitude self = None" and "longitude self = None"
  shows "(latitude (parse self) = None) = (longitude (parse self) = None)"
proof (cases "rsearch base_rx (raw self)")
  case None
  with assms show ?thesis by (simp add: parse_no_match)
next
  case (Some parts)
  from base_groups_defined[OF Some] obtain g1 g2 g3 g4 where
    g: "group parts 1 = Some g1" "group parts 2 = Some g2"
       "group parts 3 = Some g3" "group parts 4 = Some g4" by blast
  let ?s = "(with_address self g1 g2 g3)\<lparr>message_type := ''Position''\<rparr>"
  from assms have "latitude ?s = None" "longitude ?s = None"
    by (simp_all add: with_address_def)
  from parse_position_both[OF this] assms parse_body_match[OF Some g]
  show ?thesis
    by (simp add: parse_def Let_def with_address_def)
qed

lemma rmatch_base_not_addr:
  "\<not> is_addr_char x \<Longrightarrow> rmatch base_rx (x # s, []) = []"
  by (simp add: base_rx_def rx_plus_def)

lemma rsearch_base_prefix:
  "list_all (\<lambda>c. \<not> is_addr_char c) pre \<Longrightarrow> rsearch base_rx (pre @ line) = rsearch base_rx line"
proof (induction pre)
  case Nil
  then show ?case by simp
next
  case (Cons x pre)
  then have "rmatch base_rx (x # pre @ line, []) = []" by (simp add: rmatch_base_not_addr)
  then have "rsearch base_rx ((x # pre) @ line) = rsearch base_rx (pre @ line)"
    by (simp add: rsearch.simps[of base_rx "x # pre @ line"])
  with Cons show ?case by simp
qed

lemma parse_position_raw:
  "parse_position (self\<lparr>raw := r\<rparr>) content = (parse_position self content)\<lparr>raw := r\<rparr>"
  by (simp add: parse_position_def parse_position_body_def Let_def
      split: option.splits sum.splits)

lemma parse_raw:
  assumes "rsearch base_rx r = rsearch base_rx (raw self)"
  shows "parse (self\<lparr>raw := r\<rparr>) = (parse self)\<lparr>raw := r\<rparr>"
proof (cases "rsearch base_rx (raw self)")
  case None
  with assms show ?thesis by (simp add: parse_no_match)
next
  case (Some parts)
  from base_groups_defined[OF Some] obtain g1 g2 g3 g4 where
    g: "group parts 1 = Some g1" "group parts 2 = Some g2"
       "group parts 3 = Some g3" "group parts 4 = Some g4" by blast
  from Some assms have "rsearch base_rx (raw (self\<lparr>raw := r\<rparr>)) = Some parts" by simp
  note pb1 = parse_body_match[OF this g]
  note pb2 = parse_body_match[OF Some g]
  let ?c = "strip g4"
  let ?p = "(with_address self g1 g2 g3)\<lparr>message_type := ''Position''\<rparr>"
  show ?thesis
  proof (cases "startswith ?c CHR ''!'' \<or> startswith ?c CHR ''=''")
    case True
    have e: "(with_address (self\<lparr>raw := r\<rparr>) g1 g2 g3)\<lparr>message_type := ''Position''\<rparr>
        = ?p\<lparr>raw := r\<rparr>"
      by (cases self) (simp add: with_address_def)
    from True pb1 have "parse (self\<lparr>raw := r\<rparr>) =
        parse_position ((with_address (self\<lparr>raw := r\<rparr>) g1 g2 g3)\<lparr>message_type := ''Position''\<rparr>) ?c"
      by (simp add: parse_def Let_def)
    also have "\<dots> = parse_position (?p\<lparr>raw := r\<rparr>) ?c"
      by (simp only: e)
    also have "\<dots> = (parse_position ?p ?c)\<lparr>raw := r\<rparr>"
      by (rule parse_position_raw)
    also from True pb2 have "\<dots> = (parse self)\<lparr>raw := r\<rparr>"
      by (simp add: parse_def Let_def)
    finally show ?thesis .
  next
    case False
    with pb1 pb2 show ?thesis
      by (simp add: parse_def Let_def with_address_def)
  qed
qed

section \<open>Auxiliary facts about the decoded values\<close>

lemma parse_position_decoded:
  assumes "rsearch pos_rx content = Some m"
    and "py_int (group m 1) = Inr lat_deg" and "py_float (group m 2) = Inr lat_min"
    and "py_int (group m 4) = Inr lon_deg" and "py_float (group m 5) = Inr lon_min"
  shows "latitude (parse_position self content) =
           Some (signed_degrees lat_deg lat_min (group m 3 = Some ''S''))"
    and "longitude (parse_position self content) =
           Some (signed_degrees lon_deg lon_min (group m 6 = Some ''W''))"
  using parse_position_body_match[OF assms, of self]
  by (auto simp: parse_position_def)

lemma round2_hundredths: "round2 (of_nat n / 100) = of_nat n / 100"
proof -
  have "round (of_nat n / 100 * 100 :: rat) = int n" by simp
  then show ?thesis by (simp add: round2_def)
qed

lemma round2_near:
  assumes "\<bar>y - of_nat n / 100\<bar> < 1 / 200"
  shows "round2 y = of_nat n / 100"
proof -
  from assms have "of_nat n / 100 - 1 / 200 < y" "y < of_nat n / 100 + 1 / 200" by linarith+
  then have "of_int (int n) \<le> y * 100 + 1 / 2" "y * 100 + 1 / 2 < of_int (int n) + 1"
    by simp_all
  then have "\<lfloor>y * 100 + 1 / 2\<rfloor> = int n" by (rule floor_unique)
  then show ?thesis by (simp add: round2_def round_def)
qed

lemma reencode_signed:
  assumes "0 \<le> deg"
  shows "(reencode_spec (signed_degrees deg (of_nat n / 100) neg) = (deg, round2 (of_nat n / 100)))
           = ((of_nat n / 100 :: rat) < 60)"
proof -
  let ?mins = "of_nat n / 100 :: rat"
  let ?a = "of_int deg + ?mins / 60 :: rat"
  have m0: "0 \<le> ?mins" by simp
  with assms have a0: "0 \<le> ?a" by simp
  then have ab: "\<bar>signed_degrees deg ?mins neg\<bar> = ?a" by (simp add: signed_degrees_def)
  show ?thesis
  proof
    assume "reencode_spec (signed_degrees deg ?mins neg) = (deg, round2 ?mins)"
    then have "\<lfloor>?a\<rfloor> = deg" by (simp add: reencode_spec_def ab)
    then have "?a < of_int deg + 1" by linarith
    then show "?mins < 60" by simp
  next
    assume m: "?mins < 60"
    with m0 have "of_int deg \<le> ?a" "?a < of_int deg + 1" by simp_all
    then have f: "\<lfloor>?a\<rfloor> = deg" by linarith
    have "(?a - of_int deg) * 60 = ?mins" by simp
    with f show "reencode_spec (signed_degrees deg ?mins neg) = (deg, round2 ?mins)"
      by (simp only: reencode_spec_def ab)
  qed
qed

text \<open>
  The rounding absorbs an error in the decoded value: any value with the same whole
  degrees that lies within 1/12000 of a degree of \<open>deg + n/100/60\<close> re-encodes to the
  same degrees and the same minutes to two decimal places.
\<close>

lemma reencode_tolerant:
  assumes "\<lfloor>\<bar>x\<bar>\<rfloor> = deg"
    and "\<bar>\<bar>x\<bar> - (of_int deg + of_nat n / 100 / 60)\<bar> < 1 / 12000"
  shows "reencode_spec x = (deg, of_nat n / 100)"
proof -
  from assms(2) have "\<bar>(\<bar>x\<bar> - of_int deg) * 60 - of_nat n / 100\<bar> < 1 / 200"
    by (simp add: abs_less_iff field_simps)
  from round2_near[OF this] assms(1) show ?thesis by (simp add: reencode_spec_def)
qed

lemma signed_degrees_sign:
  assumes "0 \<le> deg" and "0 \<le> mins"
  shows "(neg \<longrightarrow> signed_degrees deg mins neg \<le> 0)"
    and "(\<not> neg \<longrightarrow> 0 \<le> signed_degrees deg mins neg)"
    and "(signed_degrees deg mins neg < 0) = (neg \<and> (deg \<noteq> 0 \<or> mins \<noteq> 0))"
    and "(0 < signed_degrees deg mins neg) = (\<not> neg \<and> (deg \<noteq> 0 \<or> mins \<noteq> 0))"
proof -
  let ?a = "of_int deg + mins / 60 :: rat"
  from assms have a0: "0 \<le> ?a" by simp
  have z: "(?a = 0) = (deg = 0 \<and> mins = 0)"
  proof
    assume e: "?a = 0"
    from assms have "0 \<le> (of_int deg :: rat)" "0 \<le> mins / 60" by simp_all
    with e have "(of_int deg :: rat) = 0" "mins / 60 = 0" by linarith+
    then show "deg = 0 \<and> mins = 0" by simp
  next
    assume "deg = 0 \<and> mins = 0"
    then show "?a = 0" by simp
  qed
  from a0 show "(neg \<longrightarrow> signed_degrees deg mins neg \<le> 0)"
    and "(\<not> neg \<longrightarrow> 0 \<le> signed_degrees deg mins neg)"
    by (simp_all add: signed_degrees_def)
  from a0 z show "(signed_degrees deg mins neg < 0) = (neg \<and> (deg \<noteq> 0 \<or> mins \<noteq> 0))"
    by (cases neg) (auto simp: signed_degrees_def simp del: of_int_eq_0_iff)
  from a0 z show "(0 < signed_degrees deg mins neg) = (\<not> neg \<and> (deg \<noteq> 0 \<or> mins \<noteq> 0))"
    by (cases neg) (auto simp: signed_degrees_def simp del: of_int_eq_0_iff)
qed

section \<open>The claims\<close>

subsection \<open>C1: the comment after a position\<close>

text \<open>
  C1. Claim: on every content where the position pattern matches, the comment is the text
  after the matched longitude and hemisphere field, trimmed. The decoder does not take the
  end of the position match: it looks for the tail with a second search, for
  \<^verbatim>\<open>[NS]/DDDMM.hh[EW]\<close> alone, and that search stops at the first text of this shape.
  On the content below such a text stands before the position. The position match ends
  right before \<^verbatim>\<open>-Test\<close>, so the claim asks for the comment \<^verbatim>\<open>-Test\<close>; the decoder
  stores everything after the earlier look-alike, the position report included.
\<close>

theorem comment_tail_second_search:
  "map_option fst (rsearch pos_rx ''!N/07201.75Wxx!4903.50N/07201.75W-Test'') = Some ''-Test'' \<and>
   comment (parse_position (init_packet [] 0) ''!N/07201.75Wxx!4903.50N/07201.75W-Test'')
     = ''xx!4903.50N/07201.75W-Test'' \<and>
   comment (APRSPacket ''N0CALL>APRS:!N/07201.75Wxx!4903.50N/07201.75W-Test'' 0)
     = ''xx!4903.50N/07201.75W-Test''"
  by code_simp

subsection \<open>C2: the range of the coordinates\<close>

text \<open>
  The range as first stated, latitude in [-90, 90], fails on the content
  \<^verbatim>\<open>!9999.99S/17201.75E\<close>: the pattern matches and the latitude is -(99 + 99.99/60).
\<close>

theorem position_range_counterexample:
  "rsearch pos_rx ''!9999.99S/17201.75E'' \<noteq> None \<and>
   latitude (parse_position (init_packet [] 0) ''!9999.99S/17201.75E'')
     = Some (- (99 + (9999 / 100) / 60)) \<and>
   \<not> (- 90 \<le> the (latitude (parse_position (init_packet [] 0) ''!9999.99S/17201.75E'')))"
proof -
  have a: "rsearch pos_rx ''!9999.99S/17201.75E'' \<noteq> None" by code_simp
  have b: "latitude (parse_position (init_packet [] 0) ''!9999.99S/17201.75E'')
          = Some (- (99 + (9999 / 100) / 60))" by code_simp
  have c: "\<not> (- 90 \<le> (- (99 + (9999 / 100) / 60) :: rat))" by simp
  from a b c show ?thesis by (simp only: option.sel simp_thms)
qed

text \<open>
  C2, amended. The decoder checks no range. On every content where the position pattern
  matches, both coordinates are present, the absolute latitude is DD + MM.hh/60 with
  DD at most 99 and MM.hh at most 99.99, the absolute longitude is DDD + MM.hh/60 with DDD
  at most 999; so the latitude is within 99 + 99.99/60 and the longitude within
  999 + 99.99/60 of zero. The latitude lies in [-90, 90] exactly when DD + MM.hh/60 is at
  most 90, the longitude in [-180, 180] exactly when DDD + MM.hh/60 is at most 180.
\<close>

theorem position_bounds:
  assumes "rsearch pos_rx content = Some m"
  shows "\<exists>lat_deg lat_min lon_deg lon_min lat lon.
     py_int (group m 1) = Inr lat_deg \<and> py_float (group m 2) = Inr lat_min \<and>
     py_int (group m 4) = Inr lon_deg \<and> py_float (group m 5) = Inr lon_min \<and>
     latitude (parse_position self content) = Some lat \<and>
     longitude (parse_position self content) = Some lon \<and>
     \<bar>lat\<bar> = of_int lat_deg + lat_min / 60 \<and> \<bar>lon\<bar> = of_int lon_deg + lon_min / 60 \<and>
     0 \<le> lat_deg \<and> lat_deg \<le> 99 \<and> 0 \<le> lat_min \<and> lat_min \<le> (9999 / 100) \<and>
     0 \<le> lon_deg \<and> lon_deg \<le> 999 \<and> 0 \<le> lon_min \<and> lon_min \<le> (9999 / 100) \<and>
     \<bar>lat\<bar> \<le> 99 + (9999 / 100) / 60 \<and> \<bar>lon\<bar> \<le> 999 + (9999 / 100) / 60 \<and>
     ((- 90 \<le> lat \<and> lat \<le> 90) = (of_int lat_deg + lat_min / 60 \<le> 90)) \<and>
     ((- 180 \<le> lon \<and> lon \<le> 180) = (of_int lon_deg + lon_min / 60 \<le> 180))"
proof -
  from pos_lat_deg[OF assms] obtain a where a: "py_int (group m 1) = Inr (int a)" "a \<le> 99" by blast
  from pos_lat_min[OF assms] obtain b where
    b: "py_float (group m 2) = Inr (of_nat b / 100)" "b \<le> 9999" by blast
  from pos_lon_deg[OF assms] obtain c where c: "py_int (group m 4) = Inr (int c)" "c \<le> 999" by blast
  from pos_lon_min[OF assms] obtain d where
    d: "py_float (group m 5) = Inr (of_nat d / 100)" "d \<le> 9999" by blast
  let ?lat = "signed_degrees (int a) (of_nat b / 100) (group m 3 = Some ''S'')"
  let ?lon = "signed_degrees (int c) (of_nat d / 100) (group m 6 = Some ''W'')"
  note dec = parse_position_decoded[OF assms a(1) b(1) c(1) d(1), of self]
  have b0: "(0::rat) \<le> of_nat b / 100" and d0: "(0::rat) \<le> of_nat d / 100" by simp_all
  from b(2) have "(of_nat b :: rat) \<le> of_nat 9999" by (simp only: of_nat_le_iff)
  then have b1: "(of_nat b / 100 :: rat) \<le> (9999 / 100)" by simp
  from d(2) have "(of_nat d :: rat) \<le> of_nat 9999" by (simp only: of_nat_le_iff)
  then have d1: "(of_nat d / 100 :: rat) \<le> (9999 / 100)" by simp
  from a(2) have a1: "(of_int (int a) :: rat) \<le> 99" by simp
  from c(2) have c1: "(of_int (int c) :: rat) \<le> 999" by simp
  have a0: "(0::rat) \<le> of_int (int a)" and c0: "(0::rat) \<le> of_int (int c)" by simp_all
  have alat: "\<bar>?lat\<bar> = of_int (int a) + (of_nat b / 100) / 60"
    using a0 b0 by (simp add: signed_degrees_def)
  have alon: "\<bar>?lon\<bar> = of_int (int c) + (of_nat d / 100) / 60"
    using c0 d0 by (simp add: signed_degrees_def)
  have blat: "\<bar>?lat\<bar> \<le> 99 + (9999 / 100) / 60" using a1 b1 unfolding alat by linarith
  have blon: "\<bar>?lon\<bar> \<le> 999 + (9999 / 100) / 60" using c1 d1 unfolding alon by linarith
  have rlat: "(- 90 \<le> ?lat \<and> ?lat \<le> 90) = (of_int (int a) + (of_nat b / 100) / 60 \<le> (90::rat))"
    using alat by linarith
  have rlon: "(- 180 \<le> ?lon \<and> ?lon \<le> 180) = (of_int (int c) + (of_nat d / 100) / 60 \<le> (180::rat))"
    using alon by linarith
  show ?thesis
    apply (rule exI[where x = "int a"])
    apply (rule exI[where x = "of_nat b / 100"])
    apply (rule exI[where x = "int c"])
    apply (rule exI[where x = "of_nat d / 100"])
    apply (rule exI[where x = ?lat])
    apply (rule exI[where x = ?lon])
    apply (intro conjI)
    using a b c d dec alat alon blat blon rlat rlon a0 b0 c0 d0 b1 d1
    apply simp_all
    done
qed

theorem position_bounds_witness:
  "rsearch pos_rx ''!4903.50N/07201.75W-Test position'' =
     Some (''-Test position'',
       [(6, ''W''), (5, ''01.75''), (4, ''072''), (3, ''N''), (2, ''03.50''), (1, ''49'')]) \<and>
   (\<exists>lat lon.
      latitude (parse_position (init_packet [] 0) ''!4903.50N/07201.75W-Test position'') = Some lat \<and>
      longitude (parse_position (init_packet [] 0) ''!4903.50N/07201.75W-Test position'') = Some lon \<and>
      \<bar>lat\<bar> \<le> 99 + (9999 / 100) / 60 \<and> \<bar>lon\<bar> \<le> 999 + (9999 / 100) / 60)"
proof -
  have h: "rsearch pos_rx ''!4903.50N/07201.75W-Test position'' =
     Some (''-Test position'',
       [(6, ''W''), (5, ''01.75''), (4, ''072''), (3, ''N''), (2, ''03.50''), (1, ''49'')])"
    by code_simp
  from position_bounds[OF h, of "init_packet [] 0"] h show ?thesis by blast
qed

subsection \<open>C3: the round trip\<close>

text \<open>
  The property as first stated fails when a minutes field is 60 or more, which the pattern
  accepts: \<^verbatim>\<open>!4975.00N/07201.75W\<close> has the latitude fields 49 and 75.00, decodes to
  50.25, and re-encodes to 50 degrees and 15.00 minutes.
\<close>

theorem round_trip_counterexample:
  "rsearch pos_rx ''!4975.00N/07201.75W'' =
     Some ([], [(6, ''W''), (5, ''01.75''), (4, ''072''), (3, ''N''), (2, ''75.00''), (1, ''49'')]) \<and>
   py_int (Some ''49'') = Inr 49 \<and> py_float (Some ''75.00'') = Inr 75 \<and>
   latitude (parse_position (init_packet [] 0) ''!4975.00N/07201.75W'') = Some (201 / 4) \<and>
   reencode_spec (the (latitude (parse_position (init_packet [] 0) ''!4975.00N/07201.75W'')))
     = (50, 15) \<and>
   reencode_spec (the (latitude (parse_position (init_packet [] 0) ''!4975.00N/07201.75W'')))
     \<noteq> (49, round2 75)"
proof -
  have a: "rsearch pos_rx ''!4975.00N/07201.75W'' =
     Some ([], [(6, ''W''), (5, ''01.75''), (4, ''072''), (3, ''N''), (2, ''75.00''), (1, ''49'')])"
    by code_simp
  have b: "py_int (Some ''49'') = Inr 49" by code_simp
  have c: "py_float (Some ''75.00'') = Inr 75" by code_simp
  have d: "latitude (parse_position (init_packet [] 0) ''!4975.00N/07201.75W'') = Some (201 / 4)"
    by code_simp
  have f: "\<lfloor>201 / 4 :: rat\<rfloor> = 50" by linarith
  have "(201 / 4 - 50) * 60 = (of_nat 1500 / 100 :: rat)" by simp
  with f have "reencode_spec (201 / 4) = (50, round2 (of_nat 1500 / 100))"
    by (simp only: reencode_spec_def) simp
  then have e: "reencode_spec (201 / 4) = (50, 15)"
    by (simp only: round2_hundredths) simp
  then have g: "reencode_spec (201 / 4) \<noteq> (49, round2 75)" by simp
  from a b c d e g show ?thesis by (simp only: option.sel simp_thms)
qed

text \<open>
  C3, amended. On every content where the position pattern matches, re-encoding the decoded
  latitude gives back the degrees field and, to two decimal places, the minutes field
  exactly when the minutes field is below 60; and so for the longitude.
\<close>

theorem round_trip:
  assumes "rsearch pos_rx content = Some m"
  shows "\<exists>lat_deg lat_min lon_deg lon_min lat lon.
     py_int (group m 1) = Inr lat_deg \<and> py_float (group m 2) = Inr lat_min \<and>
     py_int (group m 4) = Inr lon_deg \<and> py_float (group m 5) = Inr lon_min \<and>
     latitude (parse_position self content) = Some lat \<and>
     longitude (parse_position self content) = Some lon \<and>
     ((reencode_spec lat = (lat_deg, round2 lat_min)) = (lat_min < 60)) \<and>
     ((reencode_spec lon = (lon_deg, round2 lon_min)) = (lon_min < 60))"
proof -
  from pos_lat_deg[OF assms] obtain a where a: "py_int (group m 1) = Inr (int a)" by blast
  from pos_lat_min[OF assms] obtain b where
    b: "py_float (group m 2) = Inr (of_nat b / 100)" by blast
  from pos_lon_deg[OF assms] obtain c where c: "py_int (group m 4) = Inr (int c)" by blast
  from pos_lon_min[OF assms] obtain d where
    d: "py_float (group m 5) = Inr (of_nat d / 100)" by blast
  let ?lat = "signed_degrees (int a) (of_nat b / 100) (group m 3 = Some ''S'')"
  let ?lon = "signed_degrees (int c) (of_nat d / 100) (group m 6 = Some ''W'')"
  note dec = parse_position_decoded[OF assms a b c d, of self]
  have rlat: "(reencode_spec ?lat = (int a, round2 (of_nat b / 100)))
      = ((of_nat b / 100 :: rat) < 60)"
    by (rule reencode_signed) simp
  have rlon: "(reencode_spec ?lon = (int c, round2 (of_nat d / 100)))
      = ((of_nat d / 100 :: rat) < 60)"
    by (rule reencode_signed) simp
  from a b c d dec rlat rlon show ?thesis by blast
qed

theorem round_trip_witness:
  "rsearch pos_rx ''!4903.50N/07201.75W-Test position'' =
     Some (''-Test position'',
       [(6, ''W''), (5, ''01.75''), (4, ''072''), (3, ''N''), (2, ''03.50''), (1, ''49'')]) \<and>
   latitude (parse_position (init_packet [] 0) ''!4903.50N/07201.75W-Test position'')
     = Some (49 + (350 / 100) / 60) \<and>
   longitude (parse_position (init_packet [] 0) ''!4903.50N/07201.75W-Test position'')
     = Some (- (72 + (175 / 100) / 60)) \<and>
   reencode_spec (49 + (350 / 100) / 60) = (49, round2 (350 / 100)) \<and>
   reencode_spec (- (72 + (175 / 100) / 60)) = (72, round2 (175 / 100)) \<and>
   round2 (350 / 100) = 350 / 100 \<and> round2 (175 / 100) = 175 / 100"
proof -
  let ?c = "''!4903.50N/07201.75W-Test position''"
  let ?m = "(''-Test position'',
       [(6, ''W''), (5, ''01.75''), (4, ''072''), (3, ''N''), (2, ''03.50''), (1, ''49'')])"
  have h: "rsearch pos_rx ?c = Some ?m" by code_simp
  have g: "py_int (group ?m 1) = Inr 49" "py_float (group ?m 2) = Inr (350 / 100)"
    "py_int (group ?m 4) = Inr 72" "py_float (group ?m 5) = Inr (175 / 100)"
    by code_simp+
  have l: "latitude (parse_position (init_packet [] 0) ?c) = Some (49 + (350 / 100) / 60)"
    "longitude (parse_position (init_packet [] 0) ?c) = Some (- (72 + (175 / 100) / 60))"
    by code_simp+
  from round_trip[OF h, of "init_packet [] 0"] obtain a b c d lat lon where
    r: "py_int (group ?m 1) = Inr a" "py_float (group ?m 2) = Inr b"
       "py_int (group ?m 4) = Inr c" "py_float (group ?m 5) = Inr d"
       "latitude (parse_position (init_packet [] 0) ?c) = Some lat"
       "longitude (parse_position (init_packet [] 0) ?c) = Some lon"
       "(reencode_spec lat = (a, round2 b)) = (b < 60)"
       "(reencode_spec lon = (c, round2 d)) = (d < 60)"
    by blast
  from r(1)[symmetric] g(1) have "Inr a = (Inr 49 :: py_error + int)" by (rule trans)
  then have a: "a = 49" by (simp only: sum.inject)
  from r(2)[symmetric] g(2) have "Inr b = (Inr (350 / 100) :: py_error + rat)" by (rule trans)
  then have b: "b = 350 / 100" by (simp only: sum.inject)
  from r(3)[symmetric] g(3) have "Inr c = (Inr 72 :: py_error + int)" by (rule trans)
  then have c: "c = 72" by (simp only: sum.inject)
  from r(4)[symmetric] g(4) have "Inr d = (Inr (175 / 100) :: py_error + rat)" by (rule trans)
  then have d: "d = 175 / 100" by (simp only: sum.inject)
  from r(5)[symmetric] l(1) have "Some lat = Some (49 + (350 / 100) / 60)" by (rule trans)
  then have lat: "lat = 49 + (350 / 100) / 60" by (simp only: option.inject)
  from r(6)[symmetric] l(2) have "Some lon = Some (- (72 + (175 / 100) / 60))" by (rule trans)
  then have lon: "lon = - (72 + (175 / 100) / 60)" by (simp only: option.inject)
  have "b < 60" "d < 60" unfolding b d by simp_all
  with r(7,8) have "reencode_spec lat = (a, round2 b)" "reencode_spec lon = (c, round2 d)"
    by blast+
  then have e: "reencode_spec (49 + (350 / 100) / 60) = (49, round2 (350 / 100))"
    "reencode_spec (- (72 + (175 / 100) / 60)) = (72, round2 (175 / 100))"
    unfolding a b c d lat lon .
  have "round2 (of_nat 350 / 100) = of_nat 350 / 100" "round2 (of_nat 175 / 100) = of_nat 175 / 100"
    by (rule round2_hundredths)+
  then have f: "round2 (350 / 100) = 350 / 100" "round2 (175 / 100) = 175 / 100"
    by simp_all
  from h l e f show ?thesis by blast
qed

subsection \<open>C4: the constructor never raises and degrades to the defaults\<close>

text \<open>
  C4. The constructor is a total function to packets: for every line the body of
  \<^verbatim>\<open>parse\<close> ends without an exception, and so does the body of \<^verbatim>\<open>_parse_position\<close> for
  every packet and content, so neither handler is ever entered. When the base pattern
  matches nowhere in the line, every field but \<^verbatim>\<open>raw\<close> and \<^verbatim>\<open>timestamp\<close> keeps the
  value \<^verbatim>\<open>__init__\<close> gave it.
\<close>

theorem packet_never_raises:
  "snd (parse_body (init_packet line now)) = None \<and>
   snd (parse_position_body self content) = None \<and>
   (rsearch base_rx line = None \<longrightarrow>
      APRSPacket line now =
        \<lparr>raw = line, source = [], destination = [], path = [], message_type = [],
         latitude = None, longitude = None, comment = [], timestamp = now\<rparr>)"
  using parse_never_raises[of "init_packet line now"] parse_position_never_raises[of self content]
    APRSPacket_no_match[of line now]
  by (simp add: init_packet_def)

theorem packet_never_raises_witness:
  "rsearch base_rx ''garbage line with no structure'' = None \<and>
   APRSPacket ''garbage line with no structure'' 7 =
     \<lparr>raw = ''garbage line with no structure'', source = [], destination = [], path = [],
      message_type = [], latitude = None, longitude = None, comment = [], timestamp = 7\<rparr> \<and>
   snd (parse_body (init_packet ''garbage line with no structure'' 7)) = None"
proof -
  have h: "rsearch base_rx ''garbage line with no structure'' = None" by code_simp
  from packet_never_raises[of "''garbage line with no structure''" 7] h
  show ?thesis by blast
qed

subsection \<open>C5: the first example of the specification\<close>

text \<open>
  C5. The packet decoded from
  \<^verbatim>\<open>N0CALL>APRS,WIDE1-1,WIDE2-1:!4903.50N/07201.75W-Test position\<close>, field by field; the
  coordinates are 49 + 3.50/60 and -(72 + 1.75/60), within a millionth of 49.058333
  and -72.029167.
\<close>

theorem example_position_packet:
  "APRSPacket ''N0CALL>APRS,WIDE1-1,WIDE2-1:!4903.50N/07201.75W-Test position'' now =
     \<lparr>raw = ''N0CALL>APRS,WIDE1-1,WIDE2-1:!4903.50N/07201.75W-Test position'',
      source = ''N0CALL'', destination = ''APRS'', path = [''WIDE1-1'', ''WIDE2-1''],
      message_type = ''Position'',
      latitude = Some (49 + (350 / 100) / 60), longitude = Some (- (72 + (175 / 100) / 60)),
      comment = ''-Test position'', timestamp = now\<rparr> \<and>
   \<bar>(49 + (350 / 100) / 60) - 49058333 / 1000000\<bar> < (1 / 1000000 :: rat) \<and>
   \<bar>(- (72 + (175 / 100) / 60)) - (- 72029167 / 1000000)\<bar> < (1 / 1000000 :: rat)"
proof -
  have "APRSPacket ''N0CALL>APRS,WIDE1-1,WIDE2-1:!4903.50N/07201.75W-Test position'' now =
     \<lparr>raw = ''N0CALL>APRS,WIDE1-1,WIDE2-1:!4903.50N/07201.75W-Test position'',
      source = ''N0CALL'', destination = ''APRS'', path = [''WIDE1-1'', ''WIDE2-1''],
      message_type = ''Position'',
      latitude = Some (49 + (350 / 100) / 60), longitude = Some (- (72 + (175 / 100) / 60)),
      comment = ''-Test position'', timestamp = now\<rparr>"
    by code_simp
  moreover have "\<bar>(49 + (350 / 100) / 60) - 49058333 / 1000000\<bar> < (1 / 1000000 :: rat)"
    by simp
  moreover have "\<bar>(- (72 + (175 / 100) / 60)) - (- 72029167 / 1000000)\<bar> < (1 / 1000000 :: rat)"
    by simp
  ultimately show ?thesis by blast
qed

subsection \<open>C6: the sign of the coordinates\<close>

text \<open>
  The property as first stated fails on fields that are all zeros:
  \<^verbatim>\<open>!0000.00N/00000.00E\<close> has the letters N and E and decodes to 0 and 0, neither of them
  positive.
\<close>

theorem hemisphere_sign_counterexample:
  "rsearch pos_rx ''!0000.00N/00000.00E'' =
     Some ([], [(6, ''E''), (5, ''00.00''), (4, ''000''), (3, ''N''), (2, ''00.00''), (1, ''00'')]) \<and>
   latitude (parse_position (init_packet [] 0) ''!0000.00N/00000.00E'') = Some 0 \<and>
   longitude (parse_position (init_packet [] 0) ''!0000.00N/00000.00E'') = Some 0 \<and>
   \<not> (0 < the (latitude (parse_position (init_packet [] 0) ''!0000.00N/00000.00E''))) \<and>
   \<not> (0 < the (longitude (parse_position (init_packet [] 0) ''!0000.00N/00000.00E'')))"
proof -
  have a: "rsearch pos_rx ''!0000.00N/00000.00E'' =
     Some ([], [(6, ''E''), (5, ''00.00''), (4, ''000''), (3, ''N''), (2, ''00.00''), (1, ''00'')])"
    by code_simp
  have b: "latitude (parse_position (init_packet [] 0) ''!0000.00N/00000.00E'') = Some 0"
    by code_simp
  have c: "longitude (parse_position (init_packet [] 0) ''!0000.00N/00000.00E'') = Some 0"
    by code_simp
  have d: "\<not> (0 < (0 :: rat))" by simp
  from a b c d show ?thesis by (simp only: option.sel simp_thms)
qed

text \<open>
  C6, amended. On every content where the position pattern matches, the latitude letter is
  S or N and the longitude letter W or E; the latitude is at most 0 for S and at least 0
  for N, the longitude at most 0 for W and at least 0 for E. The latitude is negative
  exactly when the letter is S and its fields are not all zeros, positive exactly when the
  letter is N and its fields are not all zeros; likewise the longitude with W and E.
\<close>

theorem hemisphere_sign:
  assumes "rsearch pos_rx content = Some m"
  shows "\<exists>lat_deg lat_min lon_deg lon_min lat lon.
     py_int (group m 1) = Inr lat_deg \<and> py_float (group m 2) = Inr lat_min \<and>
     py_int (group m 4) = Inr lon_deg \<and> py_float (group m 5) = Inr lon_min \<and>
     latitude (parse_position self content) = Some lat \<and>
     longitude (parse_position self content) = Some lon \<and>
     (group m 3 = Some ''S'' \<or> group m 3 = Some ''N'') \<and>
     (group m 6 = Some ''W'' \<or> group m 6 = Some ''E'') \<and>
     (group m 3 = Some ''S'' \<longrightarrow> lat \<le> 0) \<and> (group m 3 = Some ''N'' \<longrightarrow> 0 \<le> lat) \<and>
     (group m 6 = Some ''W'' \<longrightarrow> lon \<le> 0) \<and> (group m 6 = Some ''E'' \<longrightarrow> 0 \<le> lon) \<and>
     ((lat < 0) = (group m 3 = Some ''S'' \<and> (lat_deg \<noteq> 0 \<or> lat_min \<noteq> 0))) \<and>
     ((0 < lat) = (group m 3 = Some ''N'' \<and> (lat_deg \<noteq> 0 \<or> lat_min \<noteq> 0))) \<and>
     ((lon < 0) = (group m 6 = Some ''W'' \<and> (lon_deg \<noteq> 0 \<or> lon_min \<noteq> 0))) \<and>
     ((0 < lon) = (group m 6 = Some ''E'' \<and> (lon_deg \<noteq> 0 \<or> lon_min \<noteq> 0)))"
proof -
  from pos_lat_deg[OF assms] obtain a where a: "py_int (group m 1) = Inr (int a)" by blast
  from pos_lat_min[OF assms] obtain b where
    b: "py_float (group m 2) = Inr (of_nat b / 100)" by blast
  from pos_lon_deg[OF assms] obtain c where c: "py_int (group m 4) = Inr (int c)" by blast
  from pos_lon_min[OF assms] obtain d where
    d: "py_float (group m 5) = Inr (of_nat d / 100)" by blast
  let ?lat = "signed_degrees (int a) (of_nat b / 100) (group m 3 = Some ''S'')"
  let ?lon = "signed_degrees (int c) (of_nat d / 100) (group m 6 = Some ''W'')"
  note dec = parse_position_decoded[OF assms a b c d, of self]
  have p: "(0::int) \<le> int a" "(0::rat) \<le> of_nat b / 100"
    "(0::int) \<le> int c" "(0::rat) \<le> of_nat d / 100" by simp_all
  note slat = signed_degrees_sign[OF p(1,2), of "group m 3 = Some ''S''"]
  note slon = signed_degrees_sign[OF p(3,4), of "group m 6 = Some ''W''"]
  from pos_lat_dir[OF assms] have ns: "(group m 3 = Some ''N'') = (group m 3 \<noteq> Some ''S'')"
    by auto
  from pos_lon_dir[OF assms] have ew: "(group m 6 = Some ''E'') = (group m 6 \<noteq> Some ''W'')"
    by auto
  show ?thesis
    apply (rule exI[where x = "int a"])
    apply (rule exI[where x = "of_nat b / 100"])
    apply (rule exI[where x = "int c"])
    apply (rule exI[where x = "of_nat d / 100"])
    apply (rule exI[where x = ?lat])
    apply (rule exI[where x = ?lon])
    apply (intro conjI)
    using a b c d dec slat slon pos_lat_dir[OF assms] pos_lon_dir[OF assms]
    apply (simp_all only: ns ew simp_thms)
    done
qed

theorem hemisphere_sign_witness:
  "rsearch pos_rx ''!4903.50S/07201.75W-Test position'' =
     Some (''-Test position'',
       [(6, ''W''), (5, ''01.75''), (4, ''072''), (3, ''S''), (2, ''03.50''), (1, ''49'')]) \<and>
   (\<exists>lat lon.
      latitude (parse_position (init_packet [] 0) ''!4903.50S/07201.75W-Test position'') = Some lat \<and>
      longitude (parse_position (init_packet [] 0) ''!4903.50S/07201.75W-Test position'') = Some lon \<and>
      lat \<le> 0 \<and> lon \<le> 0)"
proof -
  let ?m = "(''-Test position'',
       [(6, ''W''), (5, ''01.75''), (4, ''072''), (3, ''S''), (2, ''03.50''), (1, ''49'')])"
  have h: "rsearch pos_rx ''!4903.50S/07201.75W-Test position'' = Some ?m"
    by code_simp
  have g: "group ?m 3 = Some ''S''" "group ?m 6 = Some ''W''" by code_simp+
  from hemisphere_sign[OF h, of "init_packet [] 0"] g h show ?thesis by blast
qed

subsection \<open>C7: the classifier\<close>

text \<open>
  C7. For every line on which the base pattern matches, the message type is decided by
  the first character of the trimmed content alone, the rules tried in order:
  \<^verbatim>\<open>!\<close> or \<^verbatim>\<open>=\<close> gives Position, \<^verbatim>\<open>>\<close> Status, \<^verbatim>\<open>:\<close> Message, \<^verbatim>\<open>T\<close> Telemetry, anything
  else (the empty content too) Other; decoding the position does not change the type.
  The content \<^verbatim>\<open>!4903.50N/07201.75W>test\<close> is a Position.
\<close>

theorem classifier_precedence:
  "(rsearch base_rx line = Some parts \<and> group parts 4 = Some g4 \<longrightarrow>
      message_type (APRSPacket line now) =
        (case strip g4 of
           [] \<Rightarrow> ''Other''
         | c # _ \<Rightarrow>
             if c = CHR ''!'' \<or> c = CHR ''='' then ''Position''
             else if c = CHR ''>'' then ''Status''
             else if c = CHR '':'' then ''Message''
             else if c = CHR ''T'' then ''Telemetry''
             else ''Other'')) \<and>
   message_type (APRSPacket ''N0CALL>APRS:!4903.50N/07201.75W>test'' now) = ''Position''"
proof
  show "rsearch base_rx line = Some parts \<and> group parts 4 = Some g4 \<longrightarrow>
      message_type (APRSPacket line now) =
        (case strip g4 of
           [] \<Rightarrow> ''Other''
         | c # _ \<Rightarrow>
             if c = CHR ''!'' \<or> c = CHR ''='' then ''Position''
             else if c = CHR ''>'' then ''Status''
             else if c = CHR '':'' then ''Message''
             else if c = CHR ''T'' then ''Telemetry''
             else ''Other'')"
  proof
    assume a: "rsearch base_rx line = Some parts \<and> group parts 4 = Some g4"
    then have "rsearch base_rx (raw (init_packet line now)) = Some parts"
      by (simp add: init_packet_def)
    from parse_message_type[OF this] a show "message_type (APRSPacket line now) =
        (case strip g4 of
           [] \<Rightarrow> ''Other''
         | c # _ \<Rightarrow>
             if c = CHR ''!'' \<or> c = CHR ''='' then ''Position''
             else if c = CHR ''>'' then ''Status''
             else if c = CHR '':'' then ''Message''
             else if c = CHR ''T'' then ''Telemetry''
             else ''Other'')"
      by (simp add: APRSPacket_def)
  qed
  show "message_type (APRSPacket ''N0CALL>APRS:!4903.50N/07201.75W>test'' now) = ''Position''"
    by code_simp
qed

theorem classifier_precedence_witness:
  "rsearch base_rx ''N0CALL>APRS:  >Status text here'' =
     Some ([], [(4, ''  >Status text here''), (3, []), (2, ''APRS''), (1, ''N0CALL'')]) \<and>
   strip ''  >Status text here'' = ''>Status text here'' \<and>
   message_type (APRSPacket ''N0CALL>APRS:  >Status text here'' 0) = ''Status''"
proof -
  let ?parts = "([], [(4, ''  >Status text here''), (3, []), (2, ''APRS''), (1, ''N0CALL'')])"
  have h: "rsearch base_rx ''N0CALL>APRS:  >Status text here'' = Some ?parts" by code_simp
  have g: "group ?parts 4 = Some ''  >Status text here''" by code_simp
  have s: "strip ''  >Status text here'' = ''>Status text here''" by code_simp
  from classifier_precedence[of "''N0CALL>APRS:  >Status text here''" ?parts
      "''  >Status text here''" 0] h g
  have "message_type (APRSPacket ''N0CALL>APRS:  >Status text here'' 0) =
        (case strip ''  >Status text here'' of
           [] \<Rightarrow> ''Other''
         | c # _ \<Rightarrow>
             if c = CHR ''!'' \<or> c = CHR ''='' then ''Position''
             else if c = CHR ''>'' then ''Status''
             else if c = CHR '':'' then ''Message''
             else if c = CHR ''T'' then ''Telemetry''
             else ''Other'')" by blast
  then have "message_type (APRSPacket ''N0CALL>APRS:  >Status text here'' 0) = ''Status''"
    unfolding s by simp
  with h s show ?thesis by blast
qed

subsection \<open>C8: latitude and longitude come together\<close>

text \<open>
  C8. For every line, the latitude of the packet is absent exactly when its longitude is.
\<close>

theorem latitude_longitude_together:
  "(latitude (APRSPacket line now) = None) = (longitude (APRSPacket line now) = None)"
  unfolding APRSPacket_def
  by (rule parse_lat_lon) (simp_all add: init_packet_def)

theorem latitude_longitude_together_witness:
  "latitude (APRSPacket ''N0CALL>APRS:!4903.50N/07201.75W-Test'' 0) = Some (49 + (350 / 100) / 60) \<and>
   longitude (APRSPacket ''N0CALL>APRS:!4903.50N/07201.75W-Test'' 0) \<noteq> None"
proof -
  have a: "latitude (APRSPacket ''N0CALL>APRS:!4903.50N/07201.75W-Test'' 0)
      = Some (49 + (350 / 100) / 60)" by code_simp
  with latitude_longitude_together[of "''N0CALL>APRS:!4903.50N/07201.75W-Test''" 0]
  show ?thesis by simp
qed

subsection \<open>C9: the path has no empty element\<close>

text \<open>
  C9. For every line, no element of the path is empty and every element is a non-empty
  run of \<^verbatim>\<open>[A-Z0-9-*]\<close>. When the base pattern matches, its third group is the path with a
  comma before each element; so a frame with no path segment has the empty path.
\<close>

theorem path_elements_nonempty:
  "[] \<notin> set (path (APRSPacket line now)) \<and>
   list_all good_segment (path (APRSPacket line now)) \<and>
   (rsearch base_rx line = Some parts \<longrightarrow>
      group parts 3 = Some (concat (map ((#) CHR '','') (path (APRSPacket line now)))))"
proof (cases "rsearch base_rx line")
  case None
  from APRSPacket_no_match[OF None] None show ?thesis by (simp add: init_packet_def)
next
  case (Some p)
  then have r: "rsearch base_rx (raw (init_packet line now)) = Some p"
    by (simp add: init_packet_def)
  from base_path_group[OF Some] obtain segs where
    segs: "group p 3 = Some (concat (map ((#) CHR '','') segs))" "list_all good_segment segs"
      "(if concat (map ((#) CHR '','') segs) \<noteq> []
        then split_on CHR '','' (drop 1 (concat (map ((#) CHR '','') segs))) else []) = segs"
    by blast
  have "path (init_packet line now) = []" by (simp add: init_packet_def)
  with parse_path[OF r segs(1)] have "path (APRSPacket line now) =
      (if concat (map ((#) CHR '','') segs) \<noteq> []
        then split_on CHR '','' (drop 1 (concat (map ((#) CHR '','') segs))) else [])"
    by (simp only: APRSPacket_def)
  then have p: "path (APRSPacket line now) = segs" using segs(3) by (rule trans)
  from segs(2) have "[] \<notin> set segs" by (auto simp: list_all_iff good_segment_def)
  with p segs Some show ?thesis by auto
qed

theorem path_elements_nonempty_witness:
  "path (APRSPacket ''N0CALL>APRS,WIDE1-1,WIDE2-1*:>hello'' 0) = [''WIDE1-1'', ''WIDE2-1*''] \<and>
   [] \<notin> set (path (APRSPacket ''N0CALL>APRS,WIDE1-1,WIDE2-1*:>hello'' 0)) \<and>
   path (APRSPacket ''N0CALL>APRS:>hello'' 0) = [] \<and>
   rsearch base_rx ''N0CALL>APRS:>hello'' =
     Some ([], [(4, ''>hello''), (3, []), (2, ''APRS''), (1, ''N0CALL'')])"
proof -
  have a: "path (APRSPacket ''N0CALL>APRS,WIDE1-1,WIDE2-1*:>hello'' 0) = [''WIDE1-1'', ''WIDE2-1*'']"
    by code_simp
  have b: "path (APRSPacket ''N0CALL>APRS:>hello'' 0) = []" by code_simp
  have c: "rsearch base_rx ''N0CALL>APRS:>hello'' =
     Some ([], [(4, ''>hello''), (3, []), (2, ''APRS''), (1, ''N0CALL'')])" by code_simp
  from path_elements_nonempty[of "''N0CALL>APRS,WIDE1-1,WIDE2-1*:>hello''" 0] a b c
  show ?thesis by blast
qed

subsection \<open>C10: the base pattern is searched, not anchored\<close>

text \<open>
  C10. Characters before the frame that cannot belong to a source are skipped by the
  search: with such a prefix the packet is the packet of the line without it, but for
  \<^verbatim>\<open>raw\<close>. The line \<^verbatim>\<open>xx: N0CALL>APRS,WIDE1-1:>Status\<close> decodes to a full Status packet.
\<close>

theorem search_is_unanchored:
  "(list_all (\<lambda>c. \<not> is_addr_char c) pre \<longrightarrow>
      APRSPacket (pre @ line) now = (APRSPacket line now)\<lparr>raw := pre @ line\<rparr>) \<and>
   APRSPacket ''xx: N0CALL>APRS,WIDE1-1:>Status'' now =
     \<lparr>raw = ''xx: N0CALL>APRS,WIDE1-1:>Status'', source = ''N0CALL'', destination = ''APRS'',
      path = [''WIDE1-1''], message_type = ''Status'', latitude = None, longitude = None,
      comment = ''Status'', timestamp = now\<rparr>"
proof
  show "list_all (\<lambda>c. \<not> is_addr_char c) pre \<longrightarrow>
      APRSPacket (pre @ line) now = (APRSPacket line now)\<lparr>raw := pre @ line\<rparr>"
  proof
    assume "list_all (\<lambda>c. \<not> is_addr_char c) pre"
    from rsearch_base_prefix[OF this, of line]
    have "rsearch base_rx (pre @ line) = rsearch base_rx (raw (init_packet line now))"
      by (simp add: init_packet_def)
    from parse_raw[OF this]
    show "APRSPacket (pre @ line) now = (APRSPacket line now)\<lparr>raw := pre @ line\<rparr>"
      by (simp add: APRSPacket_def init_packet_def)
  qed
  show "APRSPacket ''xx: N0CALL>APRS,WIDE1-1:>Status'' now =
     \<lparr>raw = ''xx: N0CALL>APRS,WIDE1-1:>Status'', source = ''N0CALL'', destination = ''APRS'',
      path = [''WIDE1-1''], message_type = ''Status'', latitude = None, longitude = None,
      comment = ''Status'', timestamp = now\<rparr>"
    by code_simp
qed

theorem search_is_unanchored_witness:
  "list_all (\<lambda>c. \<not> is_addr_char c) ''?? '' \<and>
   source (APRSPacket (''?? '' @ ''N0CALL>APRS:>hi'') 0) = ''N0CALL'' \<and>
   destination (APRSPacket (''?? '' @ ''N0CALL>APRS:>hi'') 0) = ''APRS'' \<and>
   message_type (APRSPacket (''?? '' @ ''N0CALL>APRS:>hi'') 0) = ''Status''"
proof -
  have h: "list_all (\<lambda>c. \<not> is_addr_char c) ''?? ''" by code_simp
  have a: "APRSPacket ''N0CALL>APRS:>hi'' 0 =
     \<lparr>raw = ''N0CALL>APRS:>hi'', source = ''N0CALL'', destination = ''APRS'',
      path = [], message_type = ''Status'', latitude = None, longitude = None,
      comment = ''hi'', timestamp = 0\<rparr>" by code_simp
  from search_is_unanchored[of "''?? ''" "''N0CALL>APRS:>hi''" 0] h
  have "APRSPacket (''?? '' @ ''N0CALL>APRS:>hi'') 0 =
      (APRSPacket ''N0CALL>APRS:>hi'' 0)\<lparr>raw := ''?? '' @ ''N0CALL>APRS:>hi''\<rparr>" by blast
  with a h show ?thesis by simp
qed

end
